theory Spec2Isabelle
  imports Complex_Main "HOL-Library.Signed_Division"
begin

section \<open>Conway's Game of Life on a 100 x 100 torus: the data model\<close>

text \<open>
  Both programs keep the grid in a \<^verbatim>\<open>char grid[GRID_SIZE][GRID_SIZE]\<close>: a live cell is
  the character \<^verbatim>\<open>'*'\<close>, a dead cell the character \<^verbatim>\<open>'.'\<close>. Every test of the code is
  \<^verbatim>\<open>== '*'\<close>, so any other character is treated as dead, too. A grid is a list of rows;
  the array type of the C code fixes both dimensions, which is the predicate
  \<open>wf_grid\<close> here.
\<close>

type_synonym grid = "char list list"

definition GRID_SIZE :: nat where
  "GRID_SIZE = 100"

definition ITERATIONS :: nat where
  "ITERATIONS = 100"

definition CENTER_SIZE :: nat where
  "CENTER_SIZE = 10"

abbreviation ALIVE :: char where
  "ALIVE \<equiv> CHR ''*''"

abbreviation DEAD :: char where
  "DEAD \<equiv> CHR ''.''"

definition wf_grid :: "grid \<Rightarrow> bool" where
  "wf_grid g = (length g = GRID_SIZE \<and> list_all (\<lambda>r. length r = GRID_SIZE) g)"

text \<open>The assignment \<^verbatim>\<open>a[i][j] = v\<close> on a two-dimensional array.\<close>

definition set_cell :: "grid \<Rightarrow> nat \<Rightarrow> nat \<Rightarrow> char \<Rightarrow> grid" where
  "set_cell a i j v = a[i := (a ! i)[j := v]]"

section \<open>The neighbour counter\<close>

text \<open>
  \<^verbatim>\<open>count_neighbors\<close> is the same text in both files. The offsets run over \<open>-1, 0, 1\<close>,
  the centre is skipped by \<^verbatim>\<open>continue\<close>, and the neighbour's position is
  \<^verbatim>\<open>(row + i + GRID_SIZE) % GRID_SIZE\<close>, with C's truncating remainder (\<open>smod\<close>).
  Every caller passes \<open>0 \<le> row, col < GRID_SIZE\<close>, so the sums stay far from the limits
  of a 32-bit \<^verbatim>\<open>int\<close>.
\<close>

definition count_neighbors :: "grid \<Rightarrow> int \<Rightarrow> int \<Rightarrow> int" where
  "count_neighbors grid row col =
     fold (\<lambda>i count.
       fold (\<lambda>j count.
         if i = 0 \<and> j = 0 then count
         else
           let neighbor_row = (row + i + int GRID_SIZE) smod int GRID_SIZE;
               neighbor_col = (col + j + int GRID_SIZE) smod int GRID_SIZE
           in if grid ! nat neighbor_row ! nat neighbor_col = ALIVE then count + 1 else count)
         [-1, 0, 1] count)
       [-1, 0, 1] 0"

section \<open>The transition rule\<close>

text \<open>
  The body of the inner loop of every update function (\<^verbatim>\<open>simulate_serial\<close>,
  \<^verbatim>\<open>simulate_parallel_static\<close>, \<^verbatim>\<open>simulate_parallel_guided\<close>, the two
  \<^verbatim>\<open>_no_critical\<close> functions, \<^verbatim>\<open>update_grid_serial\<close> and \<^verbatim>\<open>update_grid_parallel\<close>) is
  the same text: from \<^verbatim>\<open>grid[i][j]\<close> and \<^verbatim>\<open>neighbors\<close> it decides the character stored in
  \<^verbatim>\<open>next_grid[i][j]\<close>.
\<close>

definition next_cell :: "char \<Rightarrow> int \<Rightarrow> char" where
  "next_cell cell neighbors =
     (if cell = ALIVE then
        (if neighbors < 2 \<or> neighbors > 3 then DEAD else ALIVE)
      else
        (if neighbors = 3 then ALIVE else DEAD))"

text \<open>One iteration of the inner loop: count, decide, store.\<close>

definition compute_cell :: "grid \<Rightarrow> nat \<times> nat \<Rightarrow> grid \<Rightarrow> grid" where
  "compute_cell grid c next_grid =
     (case c of (i, j) \<Rightarrow>
        let neighbors = count_neighbors grid (int i) (int j)
        in set_cell next_grid i j (next_cell (grid ! i ! j) neighbors))"

section \<open>One generation, serially\<close>

text \<open>
  The compute phase of \<^verbatim>\<open>simulate_serial\<close> and \<^verbatim>\<open>update_grid_serial\<close>: two nested
  \<^verbatim>\<open>for\<close> loops over \<open>0 \<le> i, j < GRID_SIZE\<close>, reading \<^verbatim>\<open>grid\<close> and writing
  \<^verbatim>\<open>next_grid\<close>.
\<close>

definition compute_next :: "grid \<Rightarrow> grid \<Rightarrow> grid" where
  "compute_next grid next_grid =
     fold (\<lambda>i next_grid.
       fold (\<lambda>j next_grid. compute_cell grid (i, j) next_grid) [0..<GRID_SIZE] next_grid)
       [0..<GRID_SIZE] next_grid"

text \<open>
  \<^verbatim>\<open>simulate_serial\<close> (text program): \<open>ITERATIONS\<close> times, compute the next generation
  into \<^verbatim>\<open>next_grid\<close> and \<^verbatim>\<open>memcpy\<close> it over \<^verbatim>\<open>grid\<close>. Both arrays belong to the caller,
  so the function returns both.
\<close>

definition simulate_serial :: "grid \<Rightarrow> grid \<Rightarrow> grid \<times> grid" where
  "simulate_serial grid next_grid =
     fold (\<lambda>iter (grid, next_grid).
       let next_grid = compute_next grid next_grid
       in (next_grid, next_grid))
       [0..<ITERATIONS] (grid, next_grid)"

text \<open>
  \<^verbatim>\<open>update_grid_serial\<close> (visual program): one generation; the copy back is a second
  pair of nested loops, cell by cell.
\<close>

definition copy_cell :: "grid \<Rightarrow> nat \<times> nat \<Rightarrow> grid \<Rightarrow> grid" where
  "copy_cell next_grid c grid = (case c of (i, j) \<Rightarrow> set_cell grid i j (next_grid ! i ! j))"

definition update_grid_serial :: "grid \<Rightarrow> grid \<Rightarrow> grid \<times> grid" where
  "update_grid_serial grid next_grid =
     (let next_grid = compute_next grid next_grid;
          grid = fold (\<lambda>i grid.
                   fold (\<lambda>j grid. copy_cell next_grid (i, j) grid) [0..<GRID_SIZE] grid)
                   [0..<GRID_SIZE] grid
      in (grid, next_grid))"

text \<open>
  The grid one generation later, cell by cell: what the compute phase is meant to leave
  in \<^verbatim>\<open>next_grid\<close>. The loops above are proved to compute it.
\<close>

definition rule_at :: "grid \<Rightarrow> nat \<Rightarrow> nat \<Rightarrow> char" where
  "rule_at grid i j = next_cell (grid ! i ! j) (count_neighbors grid (int i) (int j))"

definition tabulate_grid :: "(nat \<Rightarrow> nat \<Rightarrow> char) \<Rightarrow> grid" where
  "tabulate_grid f = map (\<lambda>i. map (\<lambda>j. f i j) [0..<GRID_SIZE]) [0..<GRID_SIZE]"

definition next_generation :: "grid \<Rightarrow> grid" where
  "next_generation grid = tabulate_grid (rule_at grid)"

text \<open>All cells in row-major order, the order of the serial loops.\<close>

definition all_cells :: "(nat \<times> nat) list" where
  "all_cells = List.product [0..<GRID_SIZE] [0..<GRID_SIZE]"

definition write_cell :: "(nat \<Rightarrow> nat \<Rightarrow> char) \<Rightarrow> nat \<times> nat \<Rightarrow> grid \<Rightarrow> grid" where
  "write_cell f c a = (case c of (i, j) \<Rightarrow> set_cell a i j (f i j))"

section \<open>The parallel update functions\<close>

text \<open>
  \<^verbatim>\<open>#pragma omp parallel for\<close> hands the rows \<open>0 \<le> i < GRID_SIZE\<close> to a team of \<open>T\<close>
  threads; each thread runs the inner loop of its rows in program order. During the
  compute phase \<^verbatim>\<open>grid\<close> is only read, and the only writes are the stores
  \<^verbatim>\<open>next_grid[i][j] = ...\<close>, one per cell. An execution is therefore an interleaving of
  the threads' sequences of cell iterations: a \<open>schedule\<close>, the list of cells in the order
  in which their iterations take effect. The runtime chooses it; the model takes it as a
  parameter. The loop ends with the implicit barrier of the construct, so the copy back
  starts after every store.
\<close>

type_synonym schedule = "(nat \<times> nat) list"

text \<open>
  \<open>interleaves owner T s\<close>: the schedule \<open>s\<close> is an interleaving in which thread
  \<open>t < T\<close> runs exactly the rows \<open>i\<close> with \<open>owner i = t\<close>, each row's cells in program
  order.
\<close>

definition interleaves :: "(nat \<Rightarrow> nat) \<Rightarrow> nat \<Rightarrow> schedule \<Rightarrow> bool" where
  "interleaves owner T s =
     ((\<forall>i \<in> {0..<GRID_SIZE}. owner i < T) \<and> set s \<subseteq> set all_cells \<and>
      (\<forall>t \<in> {0..<T}.
         filter (\<lambda>(i, j). owner i = t) s = filter (\<lambda>(i, j). owner i = t) all_cells))"

text \<open>
  \<^verbatim>\<open>schedule(static, 1)\<close>: chunks of one row are dealt round-robin, row \<open>i\<close> to thread
  \<open>i mod T\<close>. \<^verbatim>\<open>schedule(guided, 1)\<close>: chunks are handed out on demand, so the owner of a
  row is only known at run time (\<open>owner\<close>).
\<close>

definition static_schedule :: "nat \<Rightarrow> schedule \<Rightarrow> bool" where
  "static_schedule T s = interleaves (\<lambda>i. i mod T) T s"

definition guided_schedule :: "(nat \<Rightarrow> nat) \<Rightarrow> nat \<Rightarrow> schedule \<Rightarrow> bool" where
  "guided_schedule owner T s = interleaves owner T s"

text \<open>
  The four parallel functions of the text program. \<open>scheds iter\<close> is the schedule of
  generation \<open>iter\<close>. The \<^verbatim>\<open>memcpy\<close> is outside the parallel region: one thread runs it,
  with or without \<^verbatim>\<open>#pragma omp critical\<close> around it.
\<close>

definition simulate_parallel_static :: "(nat \<Rightarrow> schedule) \<Rightarrow> grid \<Rightarrow> grid \<Rightarrow> grid \<times> grid" where
  "simulate_parallel_static scheds grid next_grid =
     fold (\<lambda>iter (grid, next_grid).
       let next_grid = fold (compute_cell grid) (scheds iter) next_grid
       in (next_grid, next_grid))
       [0..<ITERATIONS] (grid, next_grid)"

definition simulate_parallel_guided :: "(nat \<Rightarrow> schedule) \<Rightarrow> grid \<Rightarrow> grid \<Rightarrow> grid \<times> grid" where
  "simulate_parallel_guided scheds grid next_grid =
     fold (\<lambda>iter (grid, next_grid).
       let next_grid = fold (compute_cell grid) (scheds iter) next_grid
       in (next_grid, next_grid))
       [0..<ITERATIONS] (grid, next_grid)"

definition simulate_parallel_static_no_critical ::
  "(nat \<Rightarrow> schedule) \<Rightarrow> grid \<Rightarrow> grid \<Rightarrow> grid \<times> grid" where
  "simulate_parallel_static_no_critical scheds grid next_grid =
     fold (\<lambda>iter (grid, next_grid).
       let next_grid = fold (compute_cell grid) (scheds iter) next_grid
       in (next_grid, next_grid))
       [0..<ITERATIONS] (grid, next_grid)"

definition simulate_parallel_guided_no_critical ::
  "(nat \<Rightarrow> schedule) \<Rightarrow> grid \<Rightarrow> grid \<Rightarrow> grid \<times> grid" where
  "simulate_parallel_guided_no_critical scheds grid next_grid =
     fold (\<lambda>iter (grid, next_grid).
       let next_grid = fold (compute_cell grid) (scheds iter) next_grid
       in (next_grid, next_grid))
       [0..<ITERATIONS] (grid, next_grid)"

text \<open>
  \<^verbatim>\<open>update_grid_parallel\<close> (visual program): one generation, both the compute loop and the
  copy loop under \<^verbatim>\<open>schedule(guided, 1)\<close>.
\<close>

definition update_grid_parallel :: "schedule \<Rightarrow> schedule \<Rightarrow> grid \<Rightarrow> grid \<Rightarrow> grid \<times> grid" where
  "update_grid_parallel s1 s2 grid next_grid =
     (let next_grid = fold (compute_cell grid) s1 next_grid;
          grid = fold (copy_cell next_grid) s2 grid
      in (grid, next_grid))"

section \<open>Initial patterns and the live-cell count\<close>

text \<open>
  \<^verbatim>\<open>initialize_grid\<close> (both files): every cell dead, then the centre square alive. The
  array comes in with whatever it held.
\<close>

definition initialize_grid :: "grid \<Rightarrow> grid" where
  "initialize_grid grid =
     (let grid = fold (\<lambda>i grid.
                   fold (\<lambda>j grid. set_cell grid i j DEAD) [0..<GRID_SIZE] grid)
                   [0..<GRID_SIZE] grid;
          start_row = (GRID_SIZE - CENTER_SIZE) div 2;
          start_col = (GRID_SIZE - CENTER_SIZE) div 2
      in fold (\<lambda>i grid.
           fold (\<lambda>j grid. set_cell grid (start_row + i) (start_col + j) ALIVE)
             [0..<CENTER_SIZE] grid)
           [0..<CENTER_SIZE] grid)"

text \<open>
  \<^verbatim>\<open>initialize_glider_grid\<close>: every cell dead, the five glider cells alive, then one
  cell alive for each pair \<^verbatim>\<open>(rand() % GRID_SIZE, rand() % GRID_SIZE)\<close>. The code draws 100
  pairs; \<open>extra\<close> is the list of the pairs drawn, so the pattern without random cells is
  \<open>initialize_glider_grid []\<close>.
\<close>

definition initialize_glider_grid :: "(nat \<times> nat) list \<Rightarrow> grid \<Rightarrow> grid" where
  "initialize_glider_grid extra grid =
     (let grid = fold (\<lambda>i grid.
                   fold (\<lambda>j grid. set_cell grid i j DEAD) [0..<GRID_SIZE] grid)
                   [0..<GRID_SIZE] grid;
          start_row = 10;
          start_col = 10;
          grid = set_cell grid start_row (start_col + 1) ALIVE;
          grid = set_cell grid (start_row + 1) (start_col + 2) ALIVE;
          grid = set_cell grid (start_row + 2) start_col ALIVE;
          grid = set_cell grid (start_row + 2) (start_col + 1) ALIVE;
          grid = set_cell grid (start_row + 2) (start_col + 2) ALIVE
      in fold (\<lambda>(row, col) grid. set_cell grid row col ALIVE) extra grid)"

text \<open>
  \<^verbatim>\<open>count_live_cells\<close>: the loop is a \<^verbatim>\<open>reduction(+:count)\<close>; integer addition is
  associative and commutative, so the sum is the one of the sequential loop.
\<close>

definition count_live_cells :: "grid \<Rightarrow> int" where
  "count_live_cells grid =
     fold (\<lambda>i count.
       fold (\<lambda>j count. if grid ! i ! j = ALIVE then count + 1 else count)
         [0..<GRID_SIZE] count)
       [0..<GRID_SIZE] 0"

text \<open>
  \<^verbatim>\<open>run_simulation\<close> (text program): both arrays are locals, so they start with
  whatever the stack holds (the two parameters here); \<^verbatim>\<open>grid\<close> is initialised,
  \<^verbatim>\<open>next_grid\<close> is not. The clock readings are left out: the result is the final grid,
  the one \<^verbatim>\<open>print_grid\<close> shows.
\<close>

definition run_simulation :: "(grid \<Rightarrow> grid \<Rightarrow> grid \<times> grid) \<Rightarrow> grid \<Rightarrow> grid \<Rightarrow> grid" where
  "run_simulation simulate_func grid next_grid =
     (let grid = initialize_grid grid;
          (grid, next_grid) = simulate_func grid next_grid
      in grid)"

section \<open>The density option\<close>

text \<open>
  \<^verbatim>\<open>main\<close> of the visual program, option \<^verbatim>\<open>-r\<close>: when the next argument does not start
  with \<^verbatim>\<open>'-'\<close>, \<^verbatim>\<open>random_density = atof(argv[i + 1])\<close>, and then
  \<^verbatim>\<open>if (random_density <= 0 || random_density >= 1) random_density = 0.3f\<close>. The value is
  a C floating-point number: finite, infinite, or not a number (\<^verbatim>\<open>atof("nan")\<close>). Every
  comparison with a NaN is false. \<open>parsed\<close> is the value of \<^verbatim>\<open>random_density\<close> right
  after the assignment; \<open>default_density\<close> stands for the literal \<^verbatim>\<open>0.3f\<close>. An argument
  that starts with \<^verbatim>\<open>'-'\<close> is not read as a density at all, and the initial value
  \<^verbatim>\<open>0.3f\<close> stays.
\<close>

datatype cfloat = NaN | MinusInf | Finite real | PlusInf

fun fle :: "cfloat \<Rightarrow> cfloat \<Rightarrow> bool" where
  "fle NaN _ = False"
| "fle _ NaN = False"
| "fle MinusInf _ = True"
| "fle (Finite x) MinusInf = False"
| "fle (Finite x) (Finite y) = (x \<le> y)"
| "fle (Finite x) PlusInf = True"
| "fle PlusInf PlusInf = True"
| "fle PlusInf _ = False"

definition fge :: "cfloat \<Rightarrow> cfloat \<Rightarrow> bool" where
  "fge a b = fle b a"

definition default_density :: cfloat where
  "default_density = Finite (3 / 10)"

definition main_random_density :: "cfloat \<Rightarrow> cfloat" where
  "main_random_density parsed =
     (let random_density = parsed
      in if fle random_density (Finite 0) \<or> fge random_density (Finite 1)
         then default_density else random_density)"

text \<open>The spec's condition: the density lies in the open interval \<open>(0, 1)\<close>.\<close>

definition in_open_unit :: "cfloat \<Rightarrow> bool" where
  "in_open_unit d = (case d of Finite x \<Rightarrow> 0 < x \<and> x < 1 | _ \<Rightarrow> False)"

section \<open>The benchmark report\<close>

text \<open>
  \<^verbatim>\<open>main\<close> of the text program, "Find the best performing version": four strict
  comparisons in a row against the best time so far. The mean durations are sums of
  differences of \<^verbatim>\<open>omp_get_wtime()\<close> divided by 5: numbers, never NaN; only their order
  matters.
\<close>

definition best_performance :: "'a::linorder \<Rightarrow> 'a \<Rightarrow> 'a \<Rightarrow> 'a \<Rightarrow> 'a \<Rightarrow> string \<times> 'a" where
  "best_performance serial_time static_time guided_time
      static_no_critical_time guided_no_critical_time =
     (let best_time = serial_time;
          best_version = ''Serial'';
          (best_time, best_version) =
            (if static_time < best_time
             then (static_time, ''Parallel (Static)'') else (best_time, best_version));
          (best_time, best_version) =
            (if guided_time < best_time
             then (guided_time, ''Parallel (Guided)'') else (best_time, best_version));
          (best_time, best_version) =
            (if static_no_critical_time < best_time
             then (static_no_critical_time, ''Parallel (Static No Critical)'')
             else (best_time, best_version));
          (best_time, best_version) =
            (if guided_no_critical_time < best_time
             then (guided_no_critical_time, ''Parallel (Guided No Critical)'')
             else (best_time, best_version))
      in (best_version, best_time))"

text \<open>The variants in the order of the report.\<close>

definition version_names :: "string list" where
  "version_names = [''Serial'', ''Parallel (Static)'', ''Parallel (Guided)'',
     ''Parallel (Static No Critical)'', ''Parallel (Guided No Critical)'']"

section \<open>The spec's notions, patterns and schedules\<close>

text \<open>
  The spec's neighbourhood (section 4.2 and the glossary): the 8 cells at the offsets
  \<open>(di, dj) \<noteq> (0, 0)\<close> with \<open>di, dj\<close> in \<open>{-1, 0, 1}\<close>, coordinates taken modulo
  \<open>GRID_SIZE\<close>.
\<close>

definition neighbour_offsets :: "(int \<times> int) list" where
  "neighbour_offsets = [(-1, -1), (-1, 0), (-1, 1), (0, -1), (0, 1), (1, -1), (1, 0), (1, 1)]"

definition spec_moore_neighbours :: "int \<Rightarrow> int \<Rightarrow> (int \<times> int) set" where
  "spec_moore_neighbours row col =
     set (map (\<lambda>(di, dj). ((row + di) mod int GRID_SIZE, (col + dj) mod int GRID_SIZE))
       neighbour_offsets)"

definition spec_alive :: "grid \<Rightarrow> int \<times> int \<Rightarrow> bool" where
  "spec_alive g p = (g ! nat (fst p) ! nat (snd p) = ALIVE)"

text \<open>The grid with every cell dead, and the property of being it.\<close>

definition dead_grid :: grid where
  "dead_grid = tabulate_grid (\<lambda>i j. DEAD)"

definition all_dead :: "grid \<Rightarrow> bool" where
  "all_dead g = (\<forall>i \<in> {0..<GRID_SIZE}. \<forall>j \<in> {0..<GRID_SIZE}. g ! i ! j = DEAD)"

text \<open>The grid whose live cells are exactly the cells of a list.\<close>

definition pattern_grid :: "(nat \<times> nat) list \<Rightarrow> grid" where
  "pattern_grid S = tabulate_grid (\<lambda>i j. if (i, j) \<in> set S then ALIVE else DEAD)"

text \<open>The eight neighbours of a cell on the torus, as cells.\<close>

definition torus_neighbours :: "nat \<times> nat \<Rightarrow> (nat \<times> nat) list" where
  "torus_neighbours c =
     map (\<lambda>(di, dj). (nat ((int (fst c) + di) mod int GRID_SIZE),
                        nat ((int (snd c) + dj) mod int GRID_SIZE))) neighbour_offsets"

text \<open>How many neighbours of a cell belong to a pattern.\<close>

definition live_count :: "(nat \<times> nat) list \<Rightarrow> nat \<times> nat \<Rightarrow> int" where
  "live_count S c = int (length (filter (\<lambda>p. p \<in> set S) (torus_neighbours c)))"

text \<open>One generation on the list of live cells: only the live cells and their neighbours
  can be alive afterwards.\<close>

definition step_cells :: "(nat \<times> nat) list \<Rightarrow> (nat \<times> nat) list" where
  "step_cells S =
     filter (\<lambda>c. next_cell (if c \<in> set S then ALIVE else DEAD) (live_count S c) = ALIVE)
       (remdups (S @ concat (map torus_neighbours S)))"

text \<open>The five glider cells of \<^verbatim>\<open>initialize_glider_grid\<close>.\<close>

definition glider_cells :: "(nat \<times> nat) list" where
  "glider_cells = [(10, 11), (11, 12), (12, 10), (12, 11), (12, 12)]"

text \<open>The centred 10 x 10 square: rows and columns 45 to 54.\<close>

definition center_grid :: grid where
  "center_grid = tabulate_grid (\<lambda>i j. if 45 \<le> i \<and> i < 55 \<and> 45 \<le> j \<and> j < 55 then ALIVE else DEAD)"

definition center_cells :: "(nat \<times> nat) list" where
  "center_cells = map (\<lambda>(i, j). (45 + i, 45 + j)) (List.product [0..<10] [0..<10])"

text \<open>A schedule of two threads under \<^verbatim>\<open>schedule(static, 1)\<close>: thread 1 runs all its (odd)
  rows before thread 0 starts its (even) rows.\<close>

definition two_thread_schedule :: schedule where
  "two_thread_schedule =
     filter (\<lambda>(i, j). i mod 2 = 1) all_cells @ filter (\<lambda>(i, j). i mod 2 = 0) all_cells"

text \<open>
  A run of \<open>ITERATIONS\<close> generations under \<^verbatim>\<open>schedule(static, 1)\<close> with \<open>T\<close> threads,
  and under \<^verbatim>\<open>schedule(guided, 1)\<close> with the owners the runtime chose in each generation.
\<close>

definition static_run :: "nat \<Rightarrow> (nat \<Rightarrow> schedule) \<Rightarrow> bool" where
  "static_run T scheds = (\<forall>iter \<in> {0..<ITERATIONS}. static_schedule T (scheds iter))"

definition guided_run :: "nat \<Rightarrow> (nat \<Rightarrow> nat \<Rightarrow> nat) \<Rightarrow> (nat \<Rightarrow> schedule) \<Rightarrow> bool" where
  "guided_run T owners scheds =
     (\<forall>iter \<in> {0..<ITERATIONS}. guided_schedule (owners iter) T (scheds iter))"

text \<open>
  A 2 x 2 block with its upper left cell at \<open>(r, c)\<close>; on the torus it may straddle the
  last and the first row or column.
\<close>

definition block_grid :: "nat \<Rightarrow> nat \<Rightarrow> grid" where
  "block_grid r c =
     pattern_grid [(r, c), (r, (c + 1) mod GRID_SIZE),
       ((r + 1) mod GRID_SIZE, c), ((r + 1) mod GRID_SIZE, (c + 1) mod GRID_SIZE)]"

text \<open>The grids whose live cells are exactly the four cells of that block.\<close>

definition is_block :: "nat \<Rightarrow> nat \<Rightarrow> grid \<Rightarrow> bool" where
  "is_block r c g =
     (\<forall>i \<in> {0..<GRID_SIZE}. \<forall>j \<in> {0..<GRID_SIZE}.
        g ! i ! j =
          (if (i = r \<or> i = (r + 1) mod GRID_SIZE) \<and> (j = c \<or> j = (c + 1) mod GRID_SIZE)
           then ALIVE else DEAD))"

text \<open>Whether the row (or column) at offset \<open>d\<close> from \<open>i\<close> is one of the block's two.\<close>

definition in_block :: "nat \<Rightarrow> nat \<Rightarrow> int \<Rightarrow> bool" where
  "in_block r i d =
     (nat ((int i + d) mod int GRID_SIZE) = r \<or>
      nat ((int i + d) mod int GRID_SIZE) = (r + 1) mod GRID_SIZE)"

text \<open>A grid whose only live cell is the corner opposite to \<open>(0, 0)\<close>.\<close>

definition corner_grid :: grid where
  "corner_grid = tabulate_grid (\<lambda>i j. if i = 99 \<and> j = 99 then ALIVE else DEAD)"

text \<open>
  The spec's best variant (section 4.6): the lowest mean duration, and among equal ones
  the first in the order of the report.
\<close>

fun first_index :: "'a \<Rightarrow> 'a list \<Rightarrow> nat" where
  "first_index x [] = 0"
| "first_index x (y # ys) = (if x = y then 0 else Suc (first_index x ys))"

definition spec_best_index :: "'a::linorder list \<Rightarrow> nat" where
  "spec_best_index ts = first_index (Min (set ts)) ts"

text \<open>The four comparisons of the report as a loop over the candidates.\<close>

fun pick_best :: "'a::linorder \<times> 'b \<Rightarrow> ('a \<times> 'b) list \<Rightarrow> 'a \<times> 'b" where
  "pick_best best [] = best"
| "pick_best (bt, bv) ((t, v) # cs) = pick_best (if t < bt then (t, v) else (bt, bv)) cs"

section \<open>Basic facts about grids and cell writes\<close>

lemma wf_gridD:
  assumes "wf_grid g"
  shows "length g = GRID_SIZE" and "i < GRID_SIZE \<Longrightarrow> length (g ! i) = GRID_SIZE"
  using assms by (auto simp: wf_grid_def list_all_length)

lemma wf_gridI:
  assumes "length g = GRID_SIZE" and "\<And>i. i < GRID_SIZE \<Longrightarrow> length (g ! i) = GRID_SIZE"
  shows "wf_grid g"
  using assms by (auto simp: wf_grid_def list_all_length)

lemma wf_tabulate_grid: "wf_grid (tabulate_grid f)"
  by (rule wf_gridI) (simp_all add: tabulate_grid_def)

lemma nth_tabulate_grid:
  "i < GRID_SIZE \<Longrightarrow> j < GRID_SIZE \<Longrightarrow> tabulate_grid f ! i ! j = f i j"
  by (simp add: tabulate_grid_def)

lemma grid_eqI:
  assumes "wf_grid a" and "wf_grid b"
    and "\<And>i j. i < GRID_SIZE \<Longrightarrow> j < GRID_SIZE \<Longrightarrow> a ! i ! j = b ! i ! j"
  shows "a = b"
proof (rule nth_equalityI)
  show "length a = length b"
    using assms(1,2) by (simp add: wf_gridD)
  fix i assume "i < length a"
  then have i: "i < GRID_SIZE"
    using assms(1) by (simp add: wf_gridD)
  show "a ! i = b ! i"
    by (rule nth_equalityI) (use i assms in \<open>simp_all add: wf_gridD\<close>)
qed

lemma wf_set_cell:
  assumes "wf_grid a"
  shows "wf_grid (set_cell a i j v)"
proof (rule wf_gridI)
  show "length (set_cell a i j v) = GRID_SIZE"
    using assms by (simp add: set_cell_def wf_gridD)
  fix k assume "k < GRID_SIZE"
  then show "length (set_cell a i j v ! k) = GRID_SIZE"
    using assms by (cases "i < length a") (simp_all add: set_cell_def wf_gridD nth_list_update)
qed

lemma nth_set_cell:
  assumes "wf_grid a" and "i < GRID_SIZE" and "j < GRID_SIZE"
  shows "set_cell a i j v ! i' ! j' = (if i' = i \<and> j' = j then v else a ! i' ! j')"
  using assms by (auto simp: set_cell_def wf_gridD nth_list_update)

lemma write_cells_inv:
  assumes "wf_grid a" and "set cs \<subseteq> set all_cells"
  shows "wf_grid (fold (write_cell f) cs a) \<and>
    (\<forall>i j. fold (write_cell f) cs a ! i ! j = (if (i, j) \<in> set cs then f i j else a ! i ! j))"
  using assms
proof (induction cs arbitrary: a)
  case Nil
  then show ?case by simp
next
  case (Cons c cs)
  obtain i j where c: "c = (i, j)" by (cases c)
  from Cons.prems(2) c have ij: "i < GRID_SIZE" "j < GRID_SIZE"
    by (auto simp: all_cells_def)
  define b where "b = write_cell f c a"
  have wf: "wf_grid b"
    using Cons.prems(1) by (simp add: b_def write_cell_def c wf_set_cell)
  have step: "b ! i' ! j' = (if (i', j') = (i, j) then f i j else a ! i' ! j')" for i' j'
    using Cons.prems(1) ij by (simp add: b_def write_cell_def c nth_set_cell)
  from Cons.IH [OF wf] Cons.prems(2) have
    "wf_grid (fold (write_cell f) cs b)" and
    "\<And>i' j'. fold (write_cell f) cs b ! i' ! j' =
       (if (i', j') \<in> set cs then f i' j' else b ! i' ! j')"
    by auto
  moreover have "fold (write_cell f) (c # cs) a = fold (write_cell f) cs b"
    by (simp add: b_def)
  ultimately show ?case
    by (auto simp: step c)
qed

lemma write_cells_all:
  assumes "wf_grid a" and "set cs = set all_cells"
  shows "fold (write_cell f) cs a = tabulate_grid f"
proof (rule grid_eqI)
  show "wf_grid (fold (write_cell f) cs a)"
    using write_cells_inv [of a cs f] assms by simp
  show "wf_grid (tabulate_grid f)"
    by (rule wf_tabulate_grid)
  fix i j assume "i < GRID_SIZE" "j < GRID_SIZE"
  then have "(i, j) \<in> set cs"
    using assms(2) by (simp add: all_cells_def)
  then show "fold (write_cell f) cs a ! i ! j = tabulate_grid f ! i ! j"
    using write_cells_inv [of a cs f] assms \<open>i < GRID_SIZE\<close> \<open>j < GRID_SIZE\<close>
    by (simp add: nth_tabulate_grid)
qed

lemma nested_loops_all_cells:
  "fold (\<lambda>i a. fold (\<lambda>j a. h (i, j) a) ys a) xs a0 = fold h (List.product xs ys) a0"
  by (induction xs arbitrary: a0) (simp_all add: fold_map comp_def)

lemma compute_cell_write: "compute_cell grid = write_cell (rule_at grid)"
  by (auto simp: compute_cell_def write_cell_def rule_at_def fun_eq_iff)

lemma copy_cell_write: "copy_cell next_grid = write_cell (\<lambda>i j. next_grid ! i ! j)"
  by (auto simp: copy_cell_def write_cell_def fun_eq_iff)

lemma compute_next_eq:
  assumes "wf_grid next_grid"
  shows "compute_next grid next_grid = next_generation grid"
  unfolding compute_next_def next_generation_def nested_loops_all_cells compute_cell_write
  using assms by (simp add: write_cells_all all_cells_def)

lemma tabulate_grid_nth:
  assumes "wf_grid a"
  shows "tabulate_grid (\<lambda>i j. a ! i ! j) = a"
  by (rule grid_eqI) (simp_all add: wf_tabulate_grid assms nth_tabulate_grid)

lemma update_grid_serial_eq:
  assumes "wf_grid grid" and "wf_grid next_grid"
  shows "update_grid_serial grid next_grid = (next_generation grid, next_generation grid)"
  unfolding update_grid_serial_def Let_def nested_loops_all_cells copy_cell_write
  using assms
  by (simp add: compute_next_eq write_cells_all all_cells_def tabulate_grid_nth
      next_generation_def wf_tabulate_grid)

section \<open>The neighbour counter, unfolded\<close>

lemma fold_count:
  "fold (\<lambda>x (c::int). if S x then c else if Q x then c + 1 else c) xs c0 =
     c0 + int (length (filter Q (filter (\<lambda>x. \<not> S x) xs)))"
  by (induction xs arbitrary: c0) simp_all

lemma offsets_filter:
  "filter (\<lambda>x. \<not> (case x of (i, j) \<Rightarrow> i = 0 \<and> j = 0)) (List.product [-1, 0, 1] [-1, 0, (1::int)])
    = neighbour_offsets"
  by (simp add: neighbour_offsets_def)

lemma count_neighbors_filter:
  "count_neighbors g row col =
     int (length (filter (\<lambda>(i, j).
        g ! nat ((row + i + int GRID_SIZE) smod int GRID_SIZE)
          ! nat ((col + j + int GRID_SIZE) smod int GRID_SIZE) = ALIVE) neighbour_offsets))"
proof -
  have "count_neighbors g row col =
    fold (\<lambda>x c. if (case x of (i, j) \<Rightarrow> i = 0 \<and> j = 0) then c
      else if (case x of (i, j) \<Rightarrow>
        g ! nat ((row + i + int GRID_SIZE) smod int GRID_SIZE)
          ! nat ((col + j + int GRID_SIZE) smod int GRID_SIZE) = ALIVE) then c + 1 else c)
      (List.product [-1, 0, 1] [-1, 0, 1]) 0"
    unfolding count_neighbors_def Let_def
    by (subst nested_loops_all_cells [symmetric]) simp
  then show ?thesis
    by (simp only: fold_count offsets_filter)
qed

lemma smod_nonneg:
  fixes x :: int
  assumes "0 \<le> x"
  shows "x smod int GRID_SIZE = x mod int GRID_SIZE"
  using assms by (cases "x = 0") (simp_all add: smod_int_alt_def sgn_if GRID_SIZE_def)

lemma smod_wrap:
  assumes "0 \<le> r" and "r < int GRID_SIZE" and "d \<in> {-1, 0, 1}"
  shows "(r + d + int GRID_SIZE) smod int GRID_SIZE = (r + d) mod int GRID_SIZE"
proof -
  have "0 \<le> r + d + int GRID_SIZE"
    using assms by (auto simp: GRID_SIZE_def)
  then have "(r + d + int GRID_SIZE) smod int GRID_SIZE = (r + d + int GRID_SIZE) mod int GRID_SIZE"
    by (rule smod_nonneg)
  then show ?thesis by simp
qed

lemma wrap_next:
  assumes "0 \<le> r" and "r < int GRID_SIZE"
  shows "(r + 1) mod int GRID_SIZE = (if r = int GRID_SIZE - 1 then 0 else r + 1)"
  using assms by (simp add: GRID_SIZE_def)

lemma wrap_prev:
  assumes "0 \<le> r" and "r < int GRID_SIZE"
  shows "(r + - 1) mod int GRID_SIZE = (if r = 0 then int GRID_SIZE - 1 else r - 1)"
  using assms by (simp add: GRID_SIZE_def)

lemma wrap_self:
  assumes "0 \<le> r" and "r < int GRID_SIZE"
  shows "(r + 0) mod int GRID_SIZE = r"
  using assms by simp

lemma wrap_facts:
  assumes "0 \<le> r" and "r < int GRID_SIZE"
  shows "(r + - 1) mod int GRID_SIZE \<noteq> (r + 0) mod int GRID_SIZE"
    and "(r + 1) mod int GRID_SIZE \<noteq> (r + 0) mod int GRID_SIZE"
    and "(r + - 1) mod int GRID_SIZE \<noteq> (r + 1) mod int GRID_SIZE"
  unfolding wrap_next [OF assms] wrap_prev [OF assms] wrap_self [OF assms]
  using assms by (simp_all add: GRID_SIZE_def)

lemma moore_distinct:
  assumes "0 \<le> row" and "row < int GRID_SIZE" and "0 \<le> col" and "col < int GRID_SIZE"
  shows "distinct (map (\<lambda>(di, dj). ((row + di) mod int GRID_SIZE, (col + dj) mod int GRID_SIZE))
       neighbour_offsets)"
  using wrap_facts(1-3) [OF assms(1,2)] wrap_facts(1-3) [OF assms(3,4)]
  by (simp add: neighbour_offsets_def)

lemma count_neighbors_wrapped:
  assumes "0 \<le> row" and "row < int GRID_SIZE" and "0 \<le> col" and "col < int GRID_SIZE"
  shows "count_neighbors g row col =
     int (length (filter (spec_alive g)
       (map (\<lambda>(di, dj). ((row + di) mod int GRID_SIZE, (col + dj) mod int GRID_SIZE))
          neighbour_offsets)))"
proof -
  have off: "di \<in> {-1, 0, 1} \<and> dj \<in> {-1, 0, 1}" if "(di, dj) \<in> set neighbour_offsets" for di dj
    using that by (auto simp: neighbour_offsets_def)
  have "filter (\<lambda>(i, j).
        g ! nat ((row + i + int GRID_SIZE) smod int GRID_SIZE)
          ! nat ((col + j + int GRID_SIZE) smod int GRID_SIZE) = ALIVE) neighbour_offsets
     = filter (spec_alive g \<circ> (\<lambda>(di, dj). ((row + di) mod int GRID_SIZE, (col + dj) mod int GRID_SIZE)))
         neighbour_offsets"
  proof (rule filter_cong [OF refl])
    fix x assume x: "x \<in> set neighbour_offsets"
    obtain di dj where xd: "x = (di, dj)" by (cases x)
    from off x xd have d: "di \<in> {-1, 0, 1}" "dj \<in> {-1, 0, 1}" by auto
    show "(case x of (i, j) \<Rightarrow>
        g ! nat ((row + i + int GRID_SIZE) smod int GRID_SIZE)
          ! nat ((col + j + int GRID_SIZE) smod int GRID_SIZE) = ALIVE)
      = (spec_alive g \<circ> (\<lambda>(di, dj). ((row + di) mod int GRID_SIZE, (col + dj) mod int GRID_SIZE))) x"
      by (simp add: xd spec_alive_def smod_wrap [OF assms(1,2) d(1)] smod_wrap [OF assms(3,4) d(2)])
  qed
  then show ?thesis
    by (simp only: count_neighbors_filter filter_map length_map)
qed

lemma count_corner: "count_neighbors corner_grid 0 0 = 1"
  by (simp add: count_neighbors_filter neighbour_offsets_def smod_int_alt_def GRID_SIZE_def
      corner_grid_def tabulate_grid_def)

section \<open>Generations\<close>

lemma wf_next_generation: "wf_grid (next_generation g)"
  by (simp add: next_generation_def wf_tabulate_grid)

lemma wf_generations: "0 < k \<Longrightarrow> wf_grid ((next_generation ^^ k) g)"
  by (cases k) (simp_all add: wf_next_generation)

lemma schedule_compute:
  assumes "wf_grid next_grid" and "set s = set all_cells"
  shows "fold (compute_cell grid) s next_grid = next_generation grid"
  using assms by (simp add: compute_cell_write write_cells_all next_generation_def)

lemma schedule_copy:
  assumes "wf_grid grid" and "wf_grid next_grid" and "set s = set all_cells"
  shows "fold (copy_cell next_grid) s grid = next_grid"
  using assms by (simp add: copy_cell_write write_cells_all tabulate_grid_nth)

lemma interleaves_set:
  assumes "interleaves owner T s"
  shows "set s = set all_cells"
proof
  show "set s \<subseteq> set all_cells"
    using assms by (simp add: interleaves_def)
  show "set all_cells \<subseteq> set s"
  proof
    fix x assume x: "x \<in> set all_cells"
    obtain i j where xij: "x = (i, j)" by (cases x)
    from x xij have "i < GRID_SIZE" by (simp add: all_cells_def)
    with assms have t: "owner i < T" by (simp add: interleaves_def)
    with assms have "filter (\<lambda>(i', j'). owner i' = owner i) s
        = filter (\<lambda>(i', j'). owner i' = owner i) all_cells"
      by (simp add: interleaves_def)
    moreover have "x \<in> set (filter (\<lambda>(i', j'). owner i' = owner i) all_cells)"
      using x xij by simp
    ultimately have "x \<in> set (filter (\<lambda>(i', j'). owner i' = owner i) s)"
      by simp
    then show "x \<in> set s" by simp
  qed
qed

lemma generations_loop:
  assumes "wf_grid ng"
    and "\<And>iter g n. iter < k \<Longrightarrow> wf_grid n \<Longrightarrow> F iter g n = next_generation g"
  shows "fold (\<lambda>iter (g, n). let n = F iter g n in (n, n)) [0..<k] (g0, ng) =
    (if k = 0 then (g0, ng) else ((next_generation ^^ k) g0, (next_generation ^^ k) g0))"
  using assms(2)
proof (induction k)
  case 0
  then show ?case by simp
next
  case (Suc k)
  have IH: "fold (\<lambda>iter (g, n). let n = F iter g n in (n, n)) [0..<k] (g0, ng) =
    (if k = 0 then (g0, ng) else ((next_generation ^^ k) g0, (next_generation ^^ k) g0))"
    by (rule Suc.IH) (simp add: Suc.prems)
  show ?case
  proof (cases "k = 0")
    case True
    then show ?thesis using Suc.prems [of 0 ng g0] assms(1) by (simp add: Let_def)
  next
    case False
    then have "wf_grid ((next_generation ^^ k) g0)" by (simp add: wf_generations)
    then have "F k ((next_generation ^^ k) g0) ((next_generation ^^ k) g0)
        = next_generation ((next_generation ^^ k) g0)"
      by (simp add: Suc.prems)
    with False IH show ?thesis by (simp add: Let_def)
  qed
qed

lemma simulate_serial_eq:
  assumes "wf_grid next_grid"
  shows "simulate_serial grid next_grid =
    ((next_generation ^^ ITERATIONS) grid, (next_generation ^^ ITERATIONS) grid)"
  unfolding simulate_serial_def
  using generations_loop [of next_grid ITERATIONS "\<lambda>iter. compute_next" grid] assms
  by (simp add: compute_next_eq ITERATIONS_def)

lemma parallel_loop_eq:
  assumes "wf_grid next_grid" and "\<And>iter. iter < ITERATIONS \<Longrightarrow> set (scheds iter) = set all_cells"
  shows "fold (\<lambda>iter (grid, next_grid).
       let next_grid = fold (compute_cell grid) (scheds iter) next_grid
       in (next_grid, next_grid))
       [0..<ITERATIONS] (grid, next_grid) =
    ((next_generation ^^ ITERATIONS) grid, (next_generation ^^ ITERATIONS) grid)"
  using generations_loop [of next_grid ITERATIONS
      "\<lambda>iter grid next_grid. fold (compute_cell grid) (scheds iter) next_grid" grid] assms
  by (simp add: schedule_compute ITERATIONS_def)

lemma update_grid_serial_funpow:
  assumes "wf_grid grid" and "wf_grid next_grid"
  shows "((\<lambda>(g, n). update_grid_serial g n) ^^ k) (grid, next_grid) =
    (if k = 0 then (grid, next_grid)
     else ((next_generation ^^ k) grid, (next_generation ^^ k) grid))"
proof (induction k)
  case 0
  then show ?case by simp
next
  case (Suc k)
  show ?case
  proof (cases "k = 0")
    case True
    then show ?thesis using assms by (simp add: update_grid_serial_eq)
  next
    case False
    then have "wf_grid ((next_generation ^^ k) grid)" by (simp add: wf_generations)
    with False Suc show ?thesis by (simp add: update_grid_serial_eq)
  qed
qed

lemma update_grid_parallel_eq:
  assumes "wf_grid grid" and "wf_grid next_grid"
    and "set s1 = set all_cells" and "set s2 = set all_cells"
  shows "update_grid_parallel s1 s2 grid next_grid = (next_generation grid, next_generation grid)"
  using assms
  by (simp add: update_grid_parallel_def Let_def schedule_compute schedule_copy wf_next_generation)

lemma static_two: "static_schedule 2 two_thread_schedule"
  unfolding static_schedule_def interleaves_def two_thread_schedule_def
  by (auto simp: less_2_cases_iff filter_empty_conv)

section \<open>Patterns given by their live cells\<close>

text \<open>
  A generation of a pattern grid is the pattern grid of \<open>step_cells\<close>: a cell that is
  neither in the pattern nor next to it has no live neighbour and stays dead. Small
  patterns can then be run on their cell lists.
\<close>

lemma glider_eval:
  "set (step_cells (step_cells (step_cells (step_cells glider_cells)))) =
   set (map (\<lambda>(i, j). ((i + 1) mod GRID_SIZE, (j + 1) mod GRID_SIZE)) glider_cells)"
  by code_simp

lemma wf_pattern_grid: "wf_grid (pattern_grid S)"
  by (simp add: pattern_grid_def wf_tabulate_grid)

lemma nth_pattern_grid:
  "i < GRID_SIZE \<Longrightarrow> j < GRID_SIZE \<Longrightarrow>
    pattern_grid S ! i ! j = (if (i, j) \<in> set S then ALIVE else DEAD)"
  by (simp add: pattern_grid_def nth_tabulate_grid)

lemma pattern_grid_cong: "set S = set S' \<Longrightarrow> pattern_grid S = pattern_grid S'"
  by (simp add: pattern_grid_def)

lemma wrap_range:
  "0 \<le> (x::int) mod int GRID_SIZE" "nat (x mod int GRID_SIZE) < GRID_SIZE"
  by (simp_all add: GRID_SIZE_def)

lemma count_neighbors_pattern:
  assumes "i < GRID_SIZE" and "j < GRID_SIZE"
  shows "count_neighbors (pattern_grid S) (int i) (int j) = live_count S (i, j)"
proof -
  let ?f = "\<lambda>(di, dj). ((int i + di) mod int GRID_SIZE, (int j + dj) mod int GRID_SIZE)"
  let ?f' = "\<lambda>(di, dj). (nat ((int i + di) mod int GRID_SIZE), nat ((int j + dj) mod int GRID_SIZE))"
  have "count_neighbors (pattern_grid S) (int i) (int j) =
      int (length (filter (spec_alive (pattern_grid S)) (map ?f neighbour_offsets)))"
    by (rule count_neighbors_wrapped) (use assms in simp_all)
  also have "\<dots> = int (length (filter (spec_alive (pattern_grid S) \<circ> ?f) neighbour_offsets))"
    by (simp only: filter_map length_map)
  also have "filter (spec_alive (pattern_grid S) \<circ> ?f) neighbour_offsets
      = filter ((\<lambda>p. p \<in> set S) \<circ> ?f') neighbour_offsets"
    by (rule filter_cong [OF refl])
      (auto simp: spec_alive_def nth_pattern_grid wrap_range split: if_splits)
  also have "int (length (filter ((\<lambda>p. p \<in> set S) \<circ> ?f') neighbour_offsets))
      = live_count S (i, j)"
    by (simp only: live_count_def torus_neighbours_def filter_map length_map fst_conv snd_conv)
  finally show ?thesis .
qed

lemma wrap_back:
  assumes "i < GRID_SIZE"
  shows "nat ((int (nat ((int i + d) mod int GRID_SIZE)) + - d) mod int GRID_SIZE) = i"
proof -
  have "(int (nat ((int i + d) mod int GRID_SIZE)) + - d) mod int GRID_SIZE
      = ((int i + d) mod int GRID_SIZE - d) mod int GRID_SIZE"
    by (simp add: wrap_range)
  also have "\<dots> = (int i + d - d) mod int GRID_SIZE"
    by (rule mod_diff_left_eq)
  also have "\<dots> = int i"
    using assms by simp
  finally show ?thesis by simp
qed

lemma torus_neighbours_sym:
  assumes "i < GRID_SIZE" and "j < GRID_SIZE" and "p \<in> set (torus_neighbours (i, j))"
  shows "(i, j) \<in> set (torus_neighbours p)"
proof -
  from assms(3) obtain di dj where d: "(di, dj) \<in> set neighbour_offsets"
    and p: "p = (nat ((int i + di) mod int GRID_SIZE), nat ((int j + dj) mod int GRID_SIZE))"
    by (auto simp: torus_neighbours_def)
  from d have "(- di, - dj) \<in> set neighbour_offsets"
    by (auto simp: neighbour_offsets_def)
  then have "(\<lambda>(di, dj). (nat ((int (fst p) + di) mod int GRID_SIZE),
        nat ((int (snd p) + dj) mod int GRID_SIZE))) (- di, - dj) \<in> set (torus_neighbours p)"
    unfolding torus_neighbours_def set_map by (rule imageI)
  then have "(nat ((int (fst p) + - di) mod int GRID_SIZE),
        nat ((int (snd p) + - dj) mod int GRID_SIZE)) \<in> set (torus_neighbours p)"
    by (simp only: case_prod_conv)
  moreover have "nat ((int (fst p) + - di) mod int GRID_SIZE) = i"
    unfolding p fst_conv by (rule wrap_back [OF assms(1)])
  moreover have "nat ((int (snd p) + - dj) mod int GRID_SIZE) = j"
    unfolding p snd_conv by (rule wrap_back [OF assms(2)])
  ultimately show ?thesis
    by (simp only:)
qed

lemma next_cell_values: "next_cell s n = ALIVE \<or> next_cell s n = DEAD"
  by (simp add: next_cell_def)

lemma next_generation_pattern:
  "next_generation (pattern_grid S) = pattern_grid (step_cells S)"
proof (rule grid_eqI)
  show "wf_grid (next_generation (pattern_grid S))" by (rule wf_next_generation)
  show "wf_grid (pattern_grid (step_cells S))" by (rule wf_pattern_grid)
  fix i j assume ij: "i < GRID_SIZE" "j < GRID_SIZE"
  let ?v = "next_cell (if (i, j) \<in> set S then ALIVE else DEAD) (live_count S (i, j))"
  have lhs: "next_generation (pattern_grid S) ! i ! j = ?v"
    using ij by (simp add: next_generation_def nth_tabulate_grid rule_at_def
        nth_pattern_grid count_neighbors_pattern)
  have "?v = (if (i, j) \<in> set (step_cells S) then ALIVE else DEAD)"
  proof (cases "(i, j) \<in> set S \<or> (\<exists>p \<in> set S. (i, j) \<in> set (torus_neighbours p))")
    case True
    then have "(i, j) \<in> set (remdups (S @ concat (map torus_neighbours S)))"
      by auto
    then have "(i, j) \<in> set (step_cells S) \<longleftrightarrow> ?v = ALIVE"
      by (simp add: step_cells_def)
    then show ?thesis
      using next_cell_values [of "if (i, j) \<in> set S then ALIVE else DEAD" "live_count S (i, j)"]
      by auto
  next
    case False
    then have notS: "(i, j) \<notin> set S" and
      far: "\<And>p. p \<in> set S \<Longrightarrow> (i, j) \<notin> set (torus_neighbours p)"
      by auto
    have "filter (\<lambda>p. p \<in> set S) (torus_neighbours (i, j)) = []"
      using far torus_neighbours_sym [OF ij] by (auto simp: filter_empty_conv)
    then have "live_count S (i, j) = 0"
      by (simp add: live_count_def)
    moreover have "(i, j) \<notin> set (step_cells S)"
      using False by (auto simp: step_cells_def)
    ultimately show ?thesis
      using notS by (simp add: next_cell_def)
  qed
  with lhs show "next_generation (pattern_grid S) ! i ! j = pattern_grid (step_cells S) ! i ! j"
    using ij by (simp add: nth_pattern_grid)
qed

section \<open>The initial patterns and the count of live cells\<close>

lemma clear_loops:
  assumes "wf_grid grid"
  shows "fold (\<lambda>i grid. fold (\<lambda>j grid. set_cell grid i j DEAD) [0..<GRID_SIZE] grid)
           [0..<GRID_SIZE] grid = dead_grid"
proof -
  have eq: "(\<lambda>i grid. fold (\<lambda>j grid. set_cell grid i j DEAD) [0..<GRID_SIZE] grid)
      = (\<lambda>i grid. fold (\<lambda>j grid. write_cell (\<lambda>i j. DEAD) (i, j) grid) [0..<GRID_SIZE] grid)"
    by (simp add: write_cell_def)
  show ?thesis
    unfolding eq nested_loops_all_cells dead_grid_def
    using assms by (simp add: write_cells_all all_cells_def)
qed

lemma wf_dead_grid: "wf_grid dead_grid"
  by (simp add: dead_grid_def wf_tabulate_grid)

lemma nth_dead_grid: "i < GRID_SIZE \<Longrightarrow> j < GRID_SIZE \<Longrightarrow> dead_grid ! i ! j = DEAD"
  by (simp add: dead_grid_def nth_tabulate_grid)

lemma set_alive_cells:
  assumes "set cs \<subseteq> set all_cells"
  shows "fold (write_cell (\<lambda>i j. ALIVE)) cs dead_grid = pattern_grid cs"
proof (rule grid_eqI)
  show "wf_grid (fold (write_cell (\<lambda>i j. ALIVE)) cs dead_grid)"
    using write_cells_inv [OF wf_dead_grid assms] by simp
  show "wf_grid (pattern_grid cs)" by (rule wf_pattern_grid)
  fix i j assume "i < GRID_SIZE" "j < GRID_SIZE"
  then show "fold (write_cell (\<lambda>i j. ALIVE)) cs dead_grid ! i ! j = pattern_grid cs ! i ! j"
    using write_cells_inv [OF wf_dead_grid assms, of "\<lambda>i j. ALIVE"]
    by (simp add: nth_pattern_grid nth_dead_grid)
qed

lemma center_cells_iff:
  "(i, j) \<in> set center_cells \<longleftrightarrow> 45 \<le> i \<and> i < 55 \<and> 45 \<le> j \<and> j < 55"
proof
  assume "(i, j) \<in> set center_cells"
  then show "45 \<le> i \<and> i < 55 \<and> 45 \<le> j \<and> j < 55"
    by (auto simp: center_cells_def)
next
  assume a: "45 \<le> i \<and> i < 55 \<and> 45 \<le> j \<and> j < 55"
  then have "(i - 45, j - 45) \<in> set (List.product [0..<10] [0..<10])" by auto
  then have "(\<lambda>(i, j). (45 + i, 45 + j)) (i - 45, j - 45) \<in> set center_cells"
    unfolding center_cells_def set_map by (rule imageI)
  with a show "(i, j) \<in> set center_cells" by simp
qed

lemma initialize_grid_eq:
  assumes "wf_grid grid"
  shows "initialize_grid grid = center_grid"
proof -
  have loops: "fold (\<lambda>i grid. fold (\<lambda>j grid. set_cell grid (45 + i) (45 + j) ALIVE) [0..<10] grid)
      [0..<10] dead_grid = fold (write_cell (\<lambda>i j. ALIVE)) center_cells dead_grid"
  proof -
    have eq: "(\<lambda>i grid. fold (\<lambda>j grid. set_cell grid (45 + i) (45 + j) ALIVE) [0..<10] grid)
      = (\<lambda>i grid. fold (\<lambda>j grid.
            (write_cell (\<lambda>i j. ALIVE) \<circ> (\<lambda>(i, j). (45 + i, 45 + j))) (i, j) grid) [0..<10] grid)"
      by (simp add: write_cell_def)
    show ?thesis
      unfolding eq nested_loops_all_cells center_cells_def fold_map by (rule refl)
  qed
  have "set center_cells \<subseteq> set all_cells"
    by (auto simp: center_cells_iff all_cells_def GRID_SIZE_def)
  then have "fold (write_cell (\<lambda>i j. ALIVE)) center_cells dead_grid = pattern_grid center_cells"
    by (rule set_alive_cells)
  also have "\<dots> = center_grid"
    by (simp add: pattern_grid_def center_grid_def center_cells_iff)
  finally show ?thesis
    using loops clear_loops [OF assms]
    by (simp add: initialize_grid_def Let_def GRID_SIZE_def CENTER_SIZE_def)
qed

lemma initialize_glider_grid_eq:
  assumes "wf_grid grid" and "set extra \<subseteq> set all_cells"
  shows "initialize_glider_grid extra grid = pattern_grid (glider_cells @ extra)"
proof -
  have "(\<lambda>(row, col) grid. set_cell grid row col ALIVE) = write_cell (\<lambda>i j. ALIVE)"
    by (auto simp: write_cell_def fun_eq_iff)
  then have "initialize_glider_grid extra grid
      = fold (write_cell (\<lambda>i j. ALIVE)) (glider_cells @ extra) dead_grid"
    by (simp add: initialize_glider_grid_def Let_def clear_loops [OF assms(1)] glider_cells_def
        write_cell_def)
  moreover have "set (glider_cells @ extra) \<subseteq> set all_cells"
    using assms(2) by (simp add: glider_cells_def all_cells_def GRID_SIZE_def)
  ultimately show ?thesis
    by (simp only: set_alive_cells)
qed

lemma count_live_cells_filter:
  "count_live_cells g = int (length (filter (\<lambda>(i, j). g ! i ! j = ALIVE) all_cells))"
proof -
  have "count_live_cells g =
    fold (\<lambda>x c. if False then c else if (case x of (i, j) \<Rightarrow> g ! i ! j = ALIVE) then c + 1 else c)
      all_cells 0"
    unfolding count_live_cells_def all_cells_def
    by (subst nested_loops_all_cells [symmetric]) simp
  then show ?thesis
    by (simp only: fold_count) simp
qed

lemma length_filter_product:
  "length (filter (\<lambda>(i, j). A i \<and> B j) (List.product xs ys))
     = length (filter A xs) * length (filter B ys)"
  by (induction xs) (simp_all add: filter_map comp_def)

lemma length_filter_range:
  assumes "a \<le> b" and "b \<le> n"
  shows "length (filter (\<lambda>i. a \<le> i \<and> i < b) [0..<n]) = b - a"
proof -
  have "{i. i < length [0..<n] \<and> a \<le> [0..<n] ! i \<and> [0..<n] ! i < b} = {a..<b}"
    using assms by auto
  then show ?thesis
    by (simp add: length_filter_conv_card)
qed

lemma count_live_center: "count_live_cells center_grid = 100"
proof -
  have eq: "filter (\<lambda>(i, j). center_grid ! i ! j = ALIVE) all_cells
      = filter (\<lambda>(i, j). (45 \<le> i \<and> i < 55) \<and> (45 \<le> j \<and> j < 55)) all_cells"
    by (rule filter_cong [OF refl])
      (auto simp: all_cells_def center_grid_def nth_tabulate_grid split: if_splits)
  have "count_live_cells center_grid
      = int (length (filter (\<lambda>(i, j). (45 \<le> i \<and> i < 55) \<and> (45 \<le> j \<and> j < 55)) all_cells))"
    by (simp only: count_live_cells_filter eq)
  also have "\<dots> = int (length (filter (\<lambda>i. 45 \<le> i \<and> i < 55) [0..<GRID_SIZE])
      * length (filter (\<lambda>j. 45 \<le> j \<and> j < 55) [0..<GRID_SIZE]))"
    by (simp only: all_cells_def length_filter_product)
  also have "\<dots> = 100"
    by (simp add: length_filter_range GRID_SIZE_def)
  finally show ?thesis .
qed

section \<open>Every variant computes generations\<close>

lemma static_run_sets:
  assumes "static_run T ss" and "iter < ITERATIONS"
  shows "set (ss iter) = set all_cells"
proof -
  from assms have "interleaves (\<lambda>i. i mod T) T (ss iter)"
    by (simp add: static_run_def static_schedule_def)
  then show ?thesis by (rule interleaves_set)
qed

lemma guided_run_sets:
  assumes "guided_run T owners gs" and "iter < ITERATIONS"
  shows "set (gs iter) = set all_cells"
proof -
  from assms have "interleaves (owners iter) T (gs iter)"
    by (simp add: guided_run_def guided_schedule_def)
  then show ?thesis by (rule interleaves_set)
qed

lemma guided_schedule_set: "guided_schedule owner T s \<Longrightarrow> set s = set all_cells"
  by (simp add: guided_schedule_def interleaves_set)

lemma simulate_parallel_static_eq:
  assumes "wf_grid next_grid" and "static_run T ss"
  shows "simulate_parallel_static ss grid next_grid =
    ((next_generation ^^ ITERATIONS) grid, (next_generation ^^ ITERATIONS) grid)"
  unfolding simulate_parallel_static_def
  by (rule parallel_loop_eq [OF assms(1)]) (rule static_run_sets [OF assms(2)])

lemma simulate_parallel_guided_eq:
  assumes "wf_grid next_grid" and "guided_run T owners gs"
  shows "simulate_parallel_guided gs grid next_grid =
    ((next_generation ^^ ITERATIONS) grid, (next_generation ^^ ITERATIONS) grid)"
  unfolding simulate_parallel_guided_def
  by (rule parallel_loop_eq [OF assms(1)]) (rule guided_run_sets [OF assms(2)])

lemma simulate_parallel_static_no_critical_eq:
  assumes "wf_grid next_grid" and "static_run T ss"
  shows "simulate_parallel_static_no_critical ss grid next_grid =
    ((next_generation ^^ ITERATIONS) grid, (next_generation ^^ ITERATIONS) grid)"
  unfolding simulate_parallel_static_no_critical_def
  by (rule parallel_loop_eq [OF assms(1)]) (rule static_run_sets [OF assms(2)])

lemma simulate_parallel_guided_no_critical_eq:
  assumes "wf_grid next_grid" and "guided_run T owners gs"
  shows "simulate_parallel_guided_no_critical gs grid next_grid =
    ((next_generation ^^ ITERATIONS) grid, (next_generation ^^ ITERATIONS) grid)"
  unfolding simulate_parallel_guided_no_critical_def
  by (rule parallel_loop_eq [OF assms(1)]) (rule guided_run_sets [OF assms(2)])

lemma repeated_calls:
  assumes F: "\<And>g n. wf_grid g \<Longrightarrow> wf_grid n \<Longrightarrow>
      F g n = ((next_generation ^^ m) g, (next_generation ^^ m) g)"
    and "0 < m" and "wf_grid grid" and "wf_grid next_grid"
  shows "((\<lambda>(g, n). F g n) ^^ k) (grid, next_grid) =
    (if k = 0 then (grid, next_grid)
     else ((next_generation ^^ (m * k)) grid, (next_generation ^^ (m * k)) grid))"
proof (induction k)
  case 0
  then show ?case by simp
next
  case (Suc k)
  show ?case
  proof (cases "k = 0")
    case True
    then show ?thesis using assms by simp
  next
    case False
    with assms(2) have "wf_grid ((next_generation ^^ (m * k)) grid)"
      by (simp add: wf_generations)
    then have "F ((next_generation ^^ (m * k)) grid) ((next_generation ^^ (m * k)) grid)
      = ((next_generation ^^ (m + m * k)) grid, (next_generation ^^ (m + m * k)) grid)"
      by (simp add: F funpow_add)
    with False Suc show ?thesis by simp
  qed
qed

lemma dead_grid_pattern: "dead_grid = pattern_grid []"
  by (simp add: dead_grid_def pattern_grid_def)

lemma next_generation_dead: "next_generation dead_grid = dead_grid"
  by (simp add: dead_grid_pattern next_generation_pattern step_cells_def)

lemma generations_dead: "(next_generation ^^ k) dead_grid = dead_grid"
  by (induction k) (simp_all add: next_generation_dead)

lemma all_dead_eq:
  assumes "wf_grid g" and "all_dead g"
  shows "g = dead_grid"
  by (rule grid_eqI) (use assms in \<open>simp_all add: wf_dead_grid nth_dead_grid all_dead_def\<close>)

lemma all_dead_dead_grid: "all_dead dead_grid"
  by (simp add: all_dead_def nth_dead_grid)

lemma wf_corner_grid: "wf_grid corner_grid"
  by (simp add: corner_grid_def wf_tabulate_grid)

lemma fst_repeated_calls:
  assumes "\<And>g n. wf_grid g \<Longrightarrow> wf_grid n \<Longrightarrow>
      F g n = ((next_generation ^^ m) g, (next_generation ^^ m) g)"
    and "0 < m" and "wf_grid grid" and "wf_grid next_grid"
  shows "fst (((\<lambda>(g, n). F g n) ^^ k) (grid, next_grid)) = (next_generation ^^ (m * k)) grid"
  using repeated_calls [of F m grid next_grid k, OF assms] by simp

lemma variants_generations:
  assumes "wf_grid grid" and "wf_grid next_grid"
    and "static_run T ss" and "guided_run T owners gs"
    and "guided_schedule o1 T s1" and "guided_schedule o2 T s2"
  shows "fst (((\<lambda>(g, n). update_grid_serial g n) ^^ k) (grid, next_grid))
          = (next_generation ^^ k) grid"
    and "fst (((\<lambda>(g, n). update_grid_parallel s1 s2 g n) ^^ k) (grid, next_grid))
          = (next_generation ^^ k) grid"
    and "fst (((\<lambda>(g, n). simulate_serial g n) ^^ k) (grid, next_grid))
          = (next_generation ^^ (ITERATIONS * k)) grid"
    and "fst (((\<lambda>(g, n). simulate_parallel_static ss g n) ^^ k) (grid, next_grid))
          = (next_generation ^^ (ITERATIONS * k)) grid"
    and "fst (((\<lambda>(g, n). simulate_parallel_guided gs g n) ^^ k) (grid, next_grid))
          = (next_generation ^^ (ITERATIONS * k)) grid"
    and "fst (((\<lambda>(g, n). simulate_parallel_static_no_critical ss g n) ^^ k) (grid, next_grid))
          = (next_generation ^^ (ITERATIONS * k)) grid"
    and "fst (((\<lambda>(g, n). simulate_parallel_guided_no_critical gs g n) ^^ k) (grid, next_grid))
          = (next_generation ^^ (ITERATIONS * k)) grid"
proof -
  have pos: "0 < ITERATIONS" by (simp add: ITERATIONS_def)
  show "fst (((\<lambda>(g, n). update_grid_serial g n) ^^ k) (grid, next_grid))
          = (next_generation ^^ k) grid"
    using fst_repeated_calls [of update_grid_serial 1 grid next_grid k] assms(1,2)
    by (simp add: update_grid_serial_eq)
  show "fst (((\<lambda>(g, n). update_grid_parallel s1 s2 g n) ^^ k) (grid, next_grid))
          = (next_generation ^^ k) grid"
    using fst_repeated_calls [of "update_grid_parallel s1 s2" 1 grid next_grid k] assms(1,2)
      guided_schedule_set [OF assms(5)] guided_schedule_set [OF assms(6)]
    by (simp add: update_grid_parallel_eq)
  show "fst (((\<lambda>(g, n). simulate_serial g n) ^^ k) (grid, next_grid))
          = (next_generation ^^ (ITERATIONS * k)) grid"
    by (rule fst_repeated_calls [OF simulate_serial_eq pos assms(1,2)])
  show "fst (((\<lambda>(g, n). simulate_parallel_static ss g n) ^^ k) (grid, next_grid))
          = (next_generation ^^ (ITERATIONS * k)) grid"
    by (rule fst_repeated_calls [OF simulate_parallel_static_eq [OF _ assms(3)] pos assms(1,2)])
  show "fst (((\<lambda>(g, n). simulate_parallel_guided gs g n) ^^ k) (grid, next_grid))
          = (next_generation ^^ (ITERATIONS * k)) grid"
    by (rule fst_repeated_calls [OF simulate_parallel_guided_eq [OF _ assms(4)] pos assms(1,2)])
  show "fst (((\<lambda>(g, n). simulate_parallel_static_no_critical ss g n) ^^ k) (grid, next_grid))
          = (next_generation ^^ (ITERATIONS * k)) grid"
    by (rule fst_repeated_calls
        [OF simulate_parallel_static_no_critical_eq [OF _ assms(3)] pos assms(1,2)])
  show "fst (((\<lambda>(g, n). simulate_parallel_guided_no_critical gs g n) ^^ k) (grid, next_grid))
          = (next_generation ^^ (ITERATIONS * k)) grid"
    by (rule fst_repeated_calls
        [OF simulate_parallel_guided_no_critical_eq [OF _ assms(4)] pos assms(1,2)])
qed

lemma run_simulation_serial:
  assumes "wf_grid grid" and "wf_grid next_grid"
  shows "run_simulation simulate_serial grid next_grid
    = (next_generation ^^ ITERATIONS) center_grid"
  using assms
  by (simp add: run_simulation_def Let_def initialize_grid_eq simulate_serial_eq)

lemma static_run_two: "static_run 2 (\<lambda>iter. two_thread_schedule)"
  by (simp add: static_run_def static_two)

lemma guided_two: "guided_schedule (\<lambda>i. i mod 2) 2 two_thread_schedule"
  using static_two by (simp add: static_schedule_def guided_schedule_def)

lemma guided_run_two: "guided_run 2 (\<lambda>iter i. i mod 2) (\<lambda>iter. two_thread_schedule)"
  by (simp add: guided_run_def guided_two)

lemma wf_center_grid: "wf_grid center_grid"
  by (simp add: center_grid_def wf_tabulate_grid)

section \<open>The block\<close>

lemma offsets_product_count:
  "length (filter (\<lambda>(di, dj). A di \<and> B dj) neighbour_offsets) =
     ((if A (-1) then 1 else 0) + (if A 0 then 1 else 0) + (if A 1 then 1 else 0)) *
     ((if B (-1) then 1 else 0) + (if B 0 then 1 else 0) + (if B 1 then 1 else 0))
     - (if A 0 \<and> B 0 then 1 else 0)"
  by (simp add: neighbour_offsets_def)

lemma in_block_rows:
  assumes "i < GRID_SIZE" and "r < GRID_SIZE"
  shows "(if in_block r i (-1) then 1 else 0) + (if in_block r i 0 then 1 else 0)
      + (if in_block r i 1 then 1 else (0::nat)) \<le> 2"
    and "in_block r i 0 \<longleftrightarrow>
      (if in_block r i (-1) then 1 else 0) + (if in_block r i 0 then 1 else 0)
      + (if in_block r i 1 then 1 else (0::nat)) = 2"
proof -
  have n: "nat ((int i + 1) mod int GRID_SIZE) = (if i = 99 then 0 else i + 1)"
    using wrap_next [of "int i"] assms(1) by (auto simp: GRID_SIZE_def)
  have p: "nat ((int i + - 1) mod int GRID_SIZE) = (if i = 0 then 99 else i - 1)"
    using wrap_prev [of "int i"] assms(1) by (auto simp: GRID_SIZE_def)
  have z: "nat ((int i + 0) mod int GRID_SIZE) = i"
    using assms(1) by simp
  have r: "(r + 1) mod GRID_SIZE = (if r = 99 then 0 else r + 1)"
    using assms(2) by (auto simp: GRID_SIZE_def)
  have i: "i < 100" and r': "r < 100"
    using assms by (simp_all add: GRID_SIZE_def)
  show "(if in_block r i (-1) then 1 else 0) + (if in_block r i 0 then 1 else 0)
      + (if in_block r i 1 then 1 else (0::nat)) \<le> 2"
    unfolding in_block_def n p z r using i r'
    by (cases "i = 0"; cases "i = 99"; cases "r = 99"; simp; arith)
  show "in_block r i 0 \<longleftrightarrow>
      (if in_block r i (-1) then 1 else 0) + (if in_block r i 0 then 1 else 0)
      + (if in_block r i 1 then 1 else (0::nat)) = 2"
    unfolding in_block_def n p z r using i r'
    by (cases "i = 0"; cases "i = 99"; cases "r = 99"; simp; arith)
qed

lemma small_product:
  fixes a b :: nat
  assumes "a \<le> 2" and "b \<le> 2" and "\<not> (a = 2 \<and> b = 2)"
  shows "int a * int b \<noteq> 3"
proof -
  from assms(1) have "a = 0 \<or> a = 1 \<or> a = 2" by arith
  moreover from assms(2) have "b = 0 \<or> b = 1 \<or> b = 2" by arith
  ultimately show ?thesis using assms(3) by auto
qed

lemma block_live_count:
  "live_count [(r, c), (r, (c + 1) mod GRID_SIZE),
       ((r + 1) mod GRID_SIZE, c), ((r + 1) mod GRID_SIZE, (c + 1) mod GRID_SIZE)] (i, j)
   = int (length (filter (\<lambda>(di, dj). in_block r i di \<and> in_block c j dj) neighbour_offsets))"
proof -
  have "filter ((\<lambda>p. p \<in> set [(r, c), (r, (c + 1) mod GRID_SIZE),
       ((r + 1) mod GRID_SIZE, c), ((r + 1) mod GRID_SIZE, (c + 1) mod GRID_SIZE)]) \<circ>
      (\<lambda>(di, dj). (nat ((int i + di) mod int GRID_SIZE), nat ((int j + dj) mod int GRID_SIZE))))
      neighbour_offsets
    = filter (\<lambda>(di, dj). in_block r i di \<and> in_block c j dj) neighbour_offsets"
    by (rule filter_cong [OF refl]) (auto simp: in_block_def)
  then show ?thesis
    by (simp only: live_count_def torus_neighbours_def filter_map length_map fst_conv snd_conv)
qed

lemma next_generation_block:
  assumes "r < GRID_SIZE" and "c < GRID_SIZE"
  shows "next_generation (block_grid r c) = block_grid r c"
proof (rule grid_eqI)
  let ?S = "[(r, c), (r, (c + 1) mod GRID_SIZE),
       ((r + 1) mod GRID_SIZE, c), ((r + 1) mod GRID_SIZE, (c + 1) mod GRID_SIZE)]"
  show "wf_grid (next_generation (block_grid r c))" by (rule wf_next_generation)
  show "wf_grid (block_grid r c)" by (simp add: block_grid_def wf_pattern_grid)
  fix i j assume ij: "i < GRID_SIZE" "j < GRID_SIZE"
  define a where "a = (if in_block r i (-1) then 1 else 0) + (if in_block r i 0 then 1 else 0)
      + (if in_block r i 1 then 1 else (0::nat))"
  define b where "b = (if in_block c j (-1) then 1 else 0) + (if in_block c j 0 then 1 else 0)
      + (if in_block c j 1 then 1 else (0::nat))"
  have a: "a \<le> 2" "in_block r i 0 \<longleftrightarrow> a = 2"
    unfolding a_def by (rule in_block_rows [OF ij(1) assms(1)])+
  have b: "b \<le> 2" "in_block c j 0 \<longleftrightarrow> b = 2"
    unfolding b_def by (rule in_block_rows [OF ij(2) assms(2)])+
  have mem: "(i, j) \<in> set ?S \<longleftrightarrow> in_block r i 0 \<and> in_block c j 0"
    using ij by (auto simp: in_block_def)
  have cnt: "live_count ?S (i, j) = int (a * b - (if in_block r i 0 \<and> in_block c j 0 then 1 else 0))"
    by (simp only: block_live_count offsets_product_count a_def b_def)
  have "next_cell (if (i, j) \<in> set ?S then ALIVE else DEAD) (live_count ?S (i, j))
      = (if (i, j) \<in> set ?S then ALIVE else DEAD)"
  proof (cases "in_block r i 0 \<and> in_block c j 0")
    case True
    with a b have "a = 2" "b = 2" by simp_all
    with True show ?thesis
      by (simp only: mem cnt) (simp add: next_cell_def)
  next
    case False
    with a b have "int a * int b \<noteq> 3" by (intro small_product) auto
    with False show ?thesis
      by (simp only: mem cnt) (simp add: next_cell_def)
  qed
  then show "next_generation (block_grid r c) ! i ! j = block_grid r c ! i ! j"
    using ij
    by (simp add: block_grid_def next_generation_def nth_tabulate_grid rule_at_def
        nth_pattern_grid count_neighbors_pattern del: set_simps)
qed

lemma is_block_block_grid: "is_block r c (block_grid r c)"
  by (auto simp: is_block_def block_grid_def nth_pattern_grid)

lemma is_block_eq:
  assumes "wf_grid g" and "is_block r c g"
  shows "g = block_grid r c"
proof (rule grid_eqI)
  show "wf_grid g" by (rule assms(1))
  show "wf_grid (block_grid r c)" by (simp add: block_grid_def wf_pattern_grid)
  fix i j assume "i < GRID_SIZE" "j < GRID_SIZE"
  then show "g ! i ! j = block_grid r c ! i ! j"
    using assms(2) is_block_block_grid [of r c] by (simp add: is_block_def)
qed

lemma generations_fixed: "next_generation g = g \<Longrightarrow> (next_generation ^^ k) g = g"
  by (induction k) simp_all

lemma wf_block_grid: "wf_grid (block_grid r c)"
  by (simp add: block_grid_def wf_pattern_grid)

section \<open>What a generation stores in a cell\<close>

lemma nth_next_generation:
  assumes "i < GRID_SIZE" and "j < GRID_SIZE"
  shows "next_generation g ! i ! j
    = next_cell (g ! i ! j) (count_neighbors g (int i) (int j))"
  using assms by (simp add: next_generation_def nth_tabulate_grid rule_at_def)

lemma count_neighbors_bounds:
  assumes "i < GRID_SIZE" and "j < GRID_SIZE"
  shows "0 \<le> count_neighbors g (int i) (int j) \<and> count_neighbors g (int i) (int j) \<le> 8"
proof -
  let ?ps = "map (\<lambda>(di, dj). ((int i + di) mod int GRID_SIZE, (int j + dj) mod int GRID_SIZE))
          neighbour_offsets"
  have c: "count_neighbors g (int i) (int j) = int (length (filter (spec_alive g) ?ps))"
    by (rule count_neighbors_wrapped) (use assms in simp_all)
  have le: "length (filter (spec_alive g) ?ps) \<le> length ?ps"
    by (rule length_filter_le)
  have len: "length ?ps = 8"
    by (simp add: neighbour_offsets_def)
  from le len have "length (filter (spec_alive g) ?ps) \<le> 8"
    by (simp only:)
  then show ?thesis
    unfolding c by linarith
qed

section \<open>C1: the transition table\<close>

text \<open>
  Claim C1. For a cell that is ALIVE or DEAD and a neighbour count \<open>n\<close> between 0 and 8,
  the transition that every update variant applies gives: ALIVE for a live cell with 2 or
  3 neighbours, DEAD for a live cell with fewer than 2 or more than 3, ALIVE for a dead
  cell with exactly 3, and DEAD for a dead cell otherwise. The table is the one of
  \<open>next_cell\<close>; the neighbour count of a cell lies between 0 and 8; and every update
  function stores, in every cell, \<open>next_cell\<close> of the cell's state and neighbour count:
  \<^verbatim>\<open>update_grid_serial\<close>, \<^verbatim>\<open>update_grid_parallel\<close> and the compute phase of
  \<^verbatim>\<open>simulate_serial\<close> in one generation, and the five functions of the text program in
  each of their \<open>ITERATIONS\<close> generations (\<open>next_generation\<close> is one such generation).
\<close>

theorem update_variants_apply_table:
  assumes "0 \<le> n" and "n \<le> 8"
    and "wf_grid grid" and "wf_grid next_grid"
    and "i < GRID_SIZE" and "j < GRID_SIZE"
    and "static_run T ss" and "guided_run T owners gs"
    and "guided_schedule o1 T s1" and "guided_schedule o2 T s2"
  shows "(n = 2 \<or> n = 3 \<longrightarrow> next_cell ALIVE n = ALIVE)
    \<and> (n < 2 \<or> n > 3 \<longrightarrow> next_cell ALIVE n = DEAD)
    \<and> (n = 3 \<longrightarrow> next_cell DEAD n = ALIVE)
    \<and> (n \<noteq> 3 \<longrightarrow> next_cell DEAD n = DEAD)
    \<and> 0 \<le> count_neighbors g (int i) (int j) \<and> count_neighbors g (int i) (int j) \<le> 8
    \<and> fst (update_grid_serial grid next_grid) ! i ! j
        = next_cell (grid ! i ! j) (count_neighbors grid (int i) (int j))
    \<and> fst (update_grid_parallel s1 s2 grid next_grid) ! i ! j
        = next_cell (grid ! i ! j) (count_neighbors grid (int i) (int j))
    \<and> compute_next grid next_grid ! i ! j
        = next_cell (grid ! i ! j) (count_neighbors grid (int i) (int j))
    \<and> next_generation g ! i ! j
        = next_cell (g ! i ! j) (count_neighbors g (int i) (int j))
    \<and> fst (simulate_serial grid next_grid) = (next_generation ^^ ITERATIONS) grid
    \<and> fst (simulate_parallel_static ss grid next_grid) = (next_generation ^^ ITERATIONS) grid
    \<and> fst (simulate_parallel_guided gs grid next_grid) = (next_generation ^^ ITERATIONS) grid
    \<and> fst (simulate_parallel_static_no_critical ss grid next_grid)
        = (next_generation ^^ ITERATIONS) grid
    \<and> fst (simulate_parallel_guided_no_critical gs grid next_grid)
        = (next_generation ^^ ITERATIONS) grid"
proof -
  have table: "(n = 2 \<or> n = 3 \<longrightarrow> next_cell ALIVE n = ALIVE)
    \<and> (n < 2 \<or> n > 3 \<longrightarrow> next_cell ALIVE n = DEAD)
    \<and> (n = 3 \<longrightarrow> next_cell DEAD n = ALIVE)
    \<and> (n \<noteq> 3 \<longrightarrow> next_cell DEAD n = DEAD)"
    by (auto simp: next_cell_def)
  note cell = nth_next_generation [OF assms(5,6)]
  have serial: "fst (update_grid_serial grid next_grid) ! i ! j
        = next_cell (grid ! i ! j) (count_neighbors grid (int i) (int j))"
    by (simp add: update_grid_serial_eq [OF assms(3,4)] cell)
  have par: "fst (update_grid_parallel s1 s2 grid next_grid) ! i ! j
        = next_cell (grid ! i ! j) (count_neighbors grid (int i) (int j))"
    by (simp add: update_grid_parallel_eq [OF assms(3,4) guided_schedule_set [OF assms(9)]
          guided_schedule_set [OF assms(10)]] cell)
  have comp: "compute_next grid next_grid ! i ! j
        = next_cell (grid ! i ! j) (count_neighbors grid (int i) (int j))"
    by (simp add: compute_next_eq [OF assms(4)] cell)
  show ?thesis
    using table count_neighbors_bounds [OF assms(5,6), of g] serial par comp cell [of g]
    by (simp add: simulate_serial_eq [OF assms(4)]
        simulate_parallel_static_eq [OF assms(4,7)]
        simulate_parallel_guided_eq [OF assms(4,8)]
        simulate_parallel_static_no_critical_eq [OF assms(4,7)]
        simulate_parallel_guided_no_critical_eq [OF assms(4,8)])
qed

theorem update_variants_apply_table_witness:
  "next_cell ALIVE 3 = ALIVE \<and> next_cell DEAD 3 = ALIVE
   \<and> next_cell ALIVE 4 = DEAD \<and> next_cell DEAD 4 = DEAD
   \<and> fst (update_grid_serial center_grid corner_grid) ! 45 ! 45
        = next_cell (center_grid ! 45 ! 45) (count_neighbors center_grid 45 45)
   \<and> fst (update_grid_serial center_grid corner_grid) ! 45 ! 45 = ALIVE
   \<and> fst (update_grid_parallel two_thread_schedule two_thread_schedule center_grid corner_grid)
        ! 45 ! 45 = ALIVE
   \<and> fst (simulate_serial center_grid corner_grid) = (next_generation ^^ ITERATIONS) center_grid
   \<and> fst (simulate_parallel_static (\<lambda>iter. two_thread_schedule) center_grid corner_grid)
        = (next_generation ^^ ITERATIONS) center_grid
   \<and> fst (simulate_parallel_guided_no_critical (\<lambda>iter. two_thread_schedule) center_grid
          corner_grid) = (next_generation ^^ ITERATIONS) center_grid"
proof -
  have n3: "(0::int) \<le> 3" "(3::int) \<le> 8" and n4: "(0::int) \<le> 4" "(4::int) \<le> 8"
    and c45: "(45::nat) < GRID_SIZE"
    by (simp_all add: GRID_SIZE_def)
  note t3 = update_variants_apply_table [where g = center_grid, OF n3 wf_center_grid wf_corner_grid c45 c45
      static_run_two guided_run_two guided_two guided_two]
  note t4 = update_variants_apply_table [where g = center_grid, OF n4 wf_center_grid wf_corner_grid c45 c45
      static_run_two guided_run_two guided_two guided_two]
  have cnt: "count_neighbors center_grid 45 45 = 3"
    by (simp add: count_neighbors_filter neighbour_offsets_def smod_int_alt_def GRID_SIZE_def
        center_grid_def tabulate_grid_def)
  have alive: "center_grid ! 45 ! 45 = ALIVE"
    by (simp add: center_grid_def nth_tabulate_grid GRID_SIZE_def)
  from t3 t4 cnt alive show ?thesis
    by simp
qed

section \<open>C2: the parallel variants against the serial one\<close>

text \<open>
  Claim C2. For every initial grid, the static and guided variants, with and without the
  critical section, each leave the same final grid as \<^verbatim>\<open>simulate_serial\<close> after the 100
  generations, whatever interleaving of the threads the runtime chooses in each
  generation and whatever the scratch arrays hold. Nothing else reads or writes the
  arrays during the run.
\<close>

theorem parallel_variants_equal_serial:
  assumes "wf_grid grid" and "wf_grid next_grid" and "wf_grid serial_next"
    and "static_run T ss" and "guided_run T owners gs"
  shows "fst (simulate_parallel_static ss grid next_grid)
          = fst (simulate_serial grid serial_next)
    \<and> fst (simulate_parallel_guided gs grid next_grid)
          = fst (simulate_serial grid serial_next)
    \<and> fst (simulate_parallel_static_no_critical ss grid next_grid)
          = fst (simulate_serial grid serial_next)
    \<and> fst (simulate_parallel_guided_no_critical gs grid next_grid)
          = fst (simulate_serial grid serial_next)"
  using assms
  by (simp add: simulate_serial_eq simulate_parallel_static_eq simulate_parallel_guided_eq
      simulate_parallel_static_no_critical_eq simulate_parallel_guided_no_critical_eq)

theorem parallel_variants_equal_serial_witness:
  "fst (simulate_parallel_static (\<lambda>iter. two_thread_schedule) center_grid corner_grid)
          = fst (simulate_serial center_grid dead_grid)
    \<and> fst (simulate_parallel_guided (\<lambda>iter. two_thread_schedule) center_grid corner_grid)
          = fst (simulate_serial center_grid dead_grid)
    \<and> fst (simulate_parallel_static_no_critical (\<lambda>iter. two_thread_schedule) center_grid corner_grid)
          = fst (simulate_serial center_grid dead_grid)
    \<and> fst (simulate_parallel_guided_no_critical (\<lambda>iter. two_thread_schedule) center_grid corner_grid)
          = fst (simulate_serial center_grid dead_grid)"
  by (rule parallel_variants_equal_serial
      [OF wf_center_grid wf_corner_grid wf_dead_grid static_run_two guided_run_two])

section \<open>C3: the neighbour count\<close>

text \<open>
  Claim C3. For every grid and every coordinate with \<open>0 \<le> row, col < GRID_SIZE\<close>,
  \<^verbatim>\<open>count_neighbors\<close> returns the number of ALIVE cells among the spec's toroidally
  wrapped Moore neighbours; the count lies between 0 and 8; the neighbours are exactly 8
  cells and never the cell itself, at the edges as in the interior; and the neighbours of
  the corner \<open>(0, 0)\<close> include \<open>(N-1, N-1)\<close>, \<open>(N-1, 0)\<close> and \<open>(0, N-1)\<close>.
\<close>

theorem count_neighbors_moore:
  assumes "0 \<le> row" and "row < int GRID_SIZE" and "0 \<le> col" and "col < int GRID_SIZE"
  shows "count_neighbors g row col =
           int (card {p \<in> spec_moore_neighbours row col. spec_alive g p})
       \<and> 0 \<le> count_neighbors g row col \<and> count_neighbors g row col \<le> 8
       \<and> card (spec_moore_neighbours row col) = 8
       \<and> (row, col) \<notin> spec_moore_neighbours row col
       \<and> {(int GRID_SIZE - 1, int GRID_SIZE - 1), (int GRID_SIZE - 1, 0), (0, int GRID_SIZE - 1)}
            \<subseteq> spec_moore_neighbours 0 0"
proof -
  let ?ps = "map (\<lambda>(di, dj). ((row + di) mod int GRID_SIZE, (col + dj) mod int GRID_SIZE))
          neighbour_offsets"
  have d: "distinct ?ps"
    by (rule moore_distinct [OF assms])
  have len: "length ?ps = 8"
    by (simp add: neighbour_offsets_def)
  have cnt: "count_neighbors g row col = int (length (filter (spec_alive g) ?ps))"
    by (rule count_neighbors_wrapped [OF assms])
  have "{p \<in> spec_moore_neighbours row col. spec_alive g p} = set (filter (spec_alive g) ?ps)"
    by (auto simp: spec_moore_neighbours_def)
  moreover have "card (set (filter (spec_alive g) ?ps)) = length (filter (spec_alive g) ?ps)"
    by (rule distinct_card) (rule distinct_filter [OF d])
  ultimately have "card {p \<in> spec_moore_neighbours row col. spec_alive g p}
      = length (filter (spec_alive g) ?ps)"
    by (simp only:)
  with cnt have 1: "count_neighbors g row col =
           int (card {p \<in> spec_moore_neighbours row col. spec_alive g p})"
    by simp
  have "length (filter (spec_alive g) ?ps) \<le> length ?ps"
    by (rule length_filter_le)
  with cnt len have 2: "0 \<le> count_neighbors g row col \<and> count_neighbors g row col \<le> 8"
    by simp
  have 3: "card (spec_moore_neighbours row col) = 8"
    unfolding spec_moore_neighbours_def using d len by (simp only: distinct_card)
  have 4: "(row, col) \<notin> spec_moore_neighbours row col"
    using wrap_facts(1,2) [OF assms(1,2)] wrap_facts(1,2) [OF assms(3,4)] assms
    by (simp add: spec_moore_neighbours_def neighbour_offsets_def)
  have 5: "{(int GRID_SIZE - 1, int GRID_SIZE - 1), (int GRID_SIZE - 1, 0), (0, int GRID_SIZE - 1)}
            \<subseteq> spec_moore_neighbours 0 0"
    by (simp add: spec_moore_neighbours_def neighbour_offsets_def GRID_SIZE_def)
  from 1 2 3 4 5 show ?thesis by blast
qed

theorem count_neighbors_moore_witness:
  "count_neighbors corner_grid 0 0 = 1
   \<and> count_neighbors corner_grid 0 0
        = int (card {p \<in> spec_moore_neighbours 0 0. spec_alive corner_grid p})
   \<and> card (spec_moore_neighbours 0 0) = 8
   \<and> (0, 0) \<notin> spec_moore_neighbours 0 0
   \<and> (99, 99) \<in> spec_moore_neighbours 0 0"
  using count_neighbors_moore [of 0 0 corner_grid] count_corner
  by (simp add: GRID_SIZE_def)

section \<open>C4: the glider\<close>

text \<open>
  Claim C4. The grid of \<^verbatim>\<open>initialize_glider_grid\<close> without random cells has exactly the
  live cells (10,11), (11,12), (12,10), (12,11), (12,12); four calls of
  \<^verbatim>\<open>update_grid_serial\<close> later the live cells are exactly these five moved by (1,1)
  modulo the grid size: (11,12), (12,13), (13,11), (13,12), (13,13).
\<close>

theorem glider_translates:
  assumes "wf_grid grid" and "wf_grid next_grid"
  shows "initialize_glider_grid [] grid = pattern_grid glider_cells
    \<and> fst (((\<lambda>(g, n). update_grid_serial g n) ^^ 4) (initialize_glider_grid [] grid, next_grid))
        = pattern_grid (map (\<lambda>(i, j). ((i + 1) mod GRID_SIZE, (j + 1) mod GRID_SIZE)) glider_cells)
    \<and> map (\<lambda>(i, j). ((i + 1) mod GRID_SIZE, (j + 1) mod GRID_SIZE)) glider_cells
        = [(11, 12), (12, 13), (13, 11), (13, 12), (13, 13)]"
proof -
  have init: "initialize_glider_grid [] grid = pattern_grid glider_cells"
    using initialize_glider_grid_eq [OF assms(1), of "[]"] by simp
  have "fst (((\<lambda>(g, n). update_grid_serial g n) ^^ 4) (pattern_grid glider_cells, next_grid))
      = (next_generation ^^ 4) (pattern_grid glider_cells)"
    by (simp add: update_grid_serial_funpow [OF wf_pattern_grid assms(2)])
  also have "\<dots> = pattern_grid (step_cells (step_cells (step_cells (step_cells glider_cells))))"
    by (simp add: eval_nat_numeral next_generation_pattern)
  also have "\<dots> = pattern_grid (map (\<lambda>(i, j). ((i + 1) mod GRID_SIZE, (j + 1) mod GRID_SIZE)) glider_cells)"
    by (rule pattern_grid_cong) (rule glider_eval)
  finally have run: "fst (((\<lambda>(g, n). update_grid_serial g n) ^^ 4) (pattern_grid glider_cells, next_grid))
      = pattern_grid (map (\<lambda>(i, j). ((i + 1) mod GRID_SIZE, (j + 1) mod GRID_SIZE)) glider_cells)" .
  have cells: "map (\<lambda>(i, j). ((i + 1) mod GRID_SIZE, (j + 1) mod GRID_SIZE)) glider_cells
        = [(11, 12), (12, 13), (13, 11), (13, 12), (13, 13)]"
    by (simp add: glider_cells_def GRID_SIZE_def)
  from init run cells show ?thesis by (simp only:)
qed

theorem glider_translates_witness:
  "fst (((\<lambda>(g, n). update_grid_serial g n) ^^ 4) (initialize_glider_grid [] dead_grid, corner_grid))
     = pattern_grid [(11, 12), (12, 13), (13, 11), (13, 12), (13, 13)]"
  using glider_translates [OF wf_dead_grid wf_corner_grid]
  by (elim conjE) (simp only:)

section \<open>C5: the still life\<close>

text \<open>
  Claim C5. Every grid whose live cells are exactly the four cells of one 2 x 2 block,
  anywhere on the torus, all other cells DEAD, is a fixed point: for every \<open>k \<ge> 0\<close>,
  \<open>k\<close> serial updates return the same grid.
\<close>

theorem block_still_life:
  assumes "r < GRID_SIZE" and "c < GRID_SIZE" and "wf_grid g" and "is_block r c g"
    and "wf_grid next_grid"
  shows "fst (((\<lambda>(g, n). update_grid_serial g n) ^^ k) (g, next_grid)) = g
    \<and> fst (((\<lambda>(g, n). simulate_serial g n) ^^ k) (g, next_grid)) = g"
proof -
  have g: "g = block_grid r c"
    by (rule is_block_eq [OF assms(3,4)])
  note v = variants_generations [OF wf_block_grid assms(5) static_run_two guided_run_two
      guided_two guided_two]
  show ?thesis
    unfolding g
    by (simp only: v(1) v(3) generations_fixed [OF next_generation_block [OF assms(1,2)]] simp_thms)
qed

theorem block_still_life_witness:
  "fst (((\<lambda>(g, n). update_grid_serial g n) ^^ 7) (block_grid 99 0, corner_grid)) = block_grid 99 0
    \<and> fst (((\<lambda>(g, n). simulate_serial g n) ^^ 7) (block_grid 99 0, corner_grid)) = block_grid 99 0"
  using block_still_life [of 99 0 "block_grid 99 0" corner_grid 7]
    wf_corner_grid wf_block_grid [of 99 0] is_block_block_grid [of 99 0]
  by (simp add: GRID_SIZE_def)

section \<open>C6: the empty grid\<close>

text \<open>
  Claim C6. A grid with every cell DEAD stays so: after \<open>k\<close> calls of any update
  function (serial or parallel, of either program, under any schedule) every cell is
  DEAD, for every \<open>k\<close>.
\<close>

theorem all_dead_preserved:
  assumes "wf_grid grid" and "all_dead grid" and "wf_grid next_grid"
    and "static_run T ss" and "guided_run T owners gs"
    and "guided_schedule o1 T s1" and "guided_schedule o2 T s2"
  shows "all_dead (fst (((\<lambda>(g, n). update_grid_serial g n) ^^ k) (grid, next_grid)))
    \<and> all_dead (fst (((\<lambda>(g, n). update_grid_parallel s1 s2 g n) ^^ k) (grid, next_grid)))
    \<and> all_dead (fst (((\<lambda>(g, n). simulate_serial g n) ^^ k) (grid, next_grid)))
    \<and> all_dead (fst (((\<lambda>(g, n). simulate_parallel_static ss g n) ^^ k) (grid, next_grid)))
    \<and> all_dead (fst (((\<lambda>(g, n). simulate_parallel_guided gs g n) ^^ k) (grid, next_grid)))
    \<and> all_dead (fst (((\<lambda>(g, n). simulate_parallel_static_no_critical ss g n) ^^ k)
          (grid, next_grid)))
    \<and> all_dead (fst (((\<lambda>(g, n). simulate_parallel_guided_no_critical gs g n) ^^ k)
          (grid, next_grid)))"
proof -
  have dead: "all_dead ((next_generation ^^ j) grid)" for j
    by (simp only: all_dead_eq [OF assms(1,2)] generations_dead all_dead_dead_grid)
  show ?thesis
    by (simp only: variants_generations [OF assms(1,3) assms(4-7)] dead simp_thms)
qed

theorem all_dead_preserved_witness:
  "all_dead (fst (((\<lambda>(g, n). update_grid_serial g n) ^^ 3) (dead_grid, corner_grid)))
    \<and> all_dead (fst (((\<lambda>(g, n). update_grid_parallel two_thread_schedule two_thread_schedule g n) ^^ 3)
          (dead_grid, corner_grid)))
    \<and> all_dead (fst (((\<lambda>(g, n). simulate_serial g n) ^^ 3) (dead_grid, corner_grid)))
    \<and> all_dead (fst (((\<lambda>(g, n). simulate_parallel_static (\<lambda>iter. two_thread_schedule) g n) ^^ 3)
          (dead_grid, corner_grid)))
    \<and> all_dead (fst (((\<lambda>(g, n). simulate_parallel_guided (\<lambda>iter. two_thread_schedule) g n) ^^ 3)
          (dead_grid, corner_grid)))
    \<and> all_dead (fst (((\<lambda>(g, n). simulate_parallel_static_no_critical (\<lambda>iter. two_thread_schedule) g n) ^^ 3)
          (dead_grid, corner_grid)))
    \<and> all_dead (fst (((\<lambda>(g, n). simulate_parallel_guided_no_critical (\<lambda>iter. two_thread_schedule) g n) ^^ 3)
          (dead_grid, corner_grid)))"
  by (rule all_dead_preserved [OF wf_dead_grid all_dead_dead_grid wf_corner_grid
        static_run_two guided_run_two guided_two guided_two])

section \<open>C7: the initial live-cell count\<close>

text \<open>
  Claim C7. Right after \<^verbatim>\<open>initialize_grid\<close>, whatever the array held before, the grid
  is the centred 10 x 10 square of ALIVE cells in a DEAD grid, and \<^verbatim>\<open>count_live_cells\<close>
  returns exactly 100.
\<close>

theorem initial_live_count:
  assumes "wf_grid grid"
  shows "initialize_grid grid = center_grid \<and> count_live_cells (initialize_grid grid) = 100"
  using assms by (simp add: initialize_grid_eq count_live_center)

theorem initial_live_count_witness:
  "count_live_cells (initialize_grid corner_grid) = 100"
  using initial_live_count [OF wf_corner_grid] by (rule conjunct2)

section \<open>C8: the density guard\<close>

lemma density_replaced:
  assumes "d \<noteq> NaN" and "\<not> in_open_unit d"
  shows "main_random_density d = default_density"
  using assms
  by (cases d) (auto simp: main_random_density_def in_open_unit_def fge_def)

text \<open>
  Claim C8. A density outside the open interval \<open>(0, 1)\<close> is replaced by the default.
  \<open>density_replaced\<close> shows it for every number and both infinities; a NaN is outside
  the interval as well, but both comparisons of the guard are false for it, and it stays.
\<close>

theorem density_nan_kept:
  "\<not> in_open_unit NaN \<and> main_random_density NaN = NaN
   \<and> main_random_density NaN \<noteq> default_density"
  by (simp add: main_random_density_def in_open_unit_def fge_def default_density_def)

section \<open>C9: the best variant of the report\<close>

lemma first_index_append_in:
  "x \<in> set xs \<Longrightarrow> first_index x (xs @ ys) = first_index x xs"
  by (induction xs) auto

lemma first_index_append_notin:
  "x \<notin> set xs \<Longrightarrow> first_index x (xs @ ys) = length xs + first_index x ys"
  by (induction xs) auto

lemma first_index_less:
  "x \<in> set xs \<Longrightarrow> first_index x xs < length xs"
  by (induction xs) auto

lemma pick_best_inv:
  assumes "ps \<noteq> []"
    and "bt = Min (set (map fst ps))"
    and "bv = map snd ps ! first_index bt (map fst ps)"
  shows "pick_best (bt, bv) cs =
    (Min (set (map fst (ps @ cs))),
     map snd (ps @ cs) ! first_index (Min (set (map fst (ps @ cs)))) (map fst (ps @ cs)))"
  using assms
proof (induction cs arbitrary: ps bt bv)
  case Nil
  then show ?case by simp
next
  case (Cons c cs)
  obtain t v where c: "c = (t, v)" by (cases c)
  let ?qs = "ps @ [(t, v)]"
  have fin: "finite (set (map fst ps))" "set (map fst ps) \<noteq> {}"
    using Cons.prems(1) by simp_all
  have bt_in: "bt \<in> set (map fst ps)"
    unfolding Cons.prems(2) using fin by (rule Min_in)
  have min_qs: "Min (set (map fst ?qs)) = min t bt"
    using fin by (simp add: Cons.prems(2))
  show ?case
  proof (cases "t < bt")
    case True
    then have notin: "t \<notin> set (map fst ps)"
      using fin Cons.prems(2) by (metis Min_le not_le)
    have "pick_best (t, v) cs =
      (Min (set (map fst (?qs @ cs))),
       map snd (?qs @ cs) ! first_index (Min (set (map fst (?qs @ cs)))) (map fst (?qs @ cs)))"
    proof (rule Cons.IH)
      show "?qs \<noteq> []" by simp
      show "t = Min (set (map fst ?qs))"
        using True by (simp only: min_qs) simp
      show "v = map snd ?qs ! first_index t (map fst ?qs)"
        using notin by (simp add: first_index_append_notin nth_append)
    qed
    with True show ?thesis by (simp add: c)
  next
    case False
    have "pick_best (bt, bv) cs =
      (Min (set (map fst (?qs @ cs))),
       map snd (?qs @ cs) ! first_index (Min (set (map fst (?qs @ cs)))) (map fst (?qs @ cs)))"
    proof (rule Cons.IH)
      show "?qs \<noteq> []" by simp
      show "bt = Min (set (map fst ?qs))"
        using False by (simp only: min_qs) simp
      show "bv = map snd ?qs ! first_index bt (map fst ?qs)"
        using bt_in first_index_less [OF bt_in]
        by (simp add: first_index_append_in nth_append Cons.prems(3))
    qed
    with False show ?thesis by (simp add: c)
  qed
qed

lemma best_performance_pick:
  "best_performance a b c d e =
     (let (t, v) = pick_best (a, ''Serial'')
        [(b, ''Parallel (Static)''), (c, ''Parallel (Guided)''),
         (d, ''Parallel (Static No Critical)''), (e, ''Parallel (Guided No Critical)'')]
      in (v, t))"
  by (simp add: best_performance_def Let_def)

text \<open>
  Claim C9. For every five mean durations, the report names the variant with the lowest
  mean, and among several with the lowest mean the first in the order serial, static,
  guided, static-no-lock, guided-no-lock; the time printed is that lowest mean.
\<close>

theorem best_performance_first_min:
  "best_performance a b c d e =
     (version_names ! spec_best_index [a, b, c, d, e], Min (set [a, b, c, d, e]))
   \<and> spec_best_index [a, b, c, d, e] < 5"
proof -
  let ?cs = "[(b, ''Parallel (Static)''), (c, ''Parallel (Guided)''),
         (d, ''Parallel (Static No Critical)''), (e, ''Parallel (Guided No Critical)'')]"
  have 1: "[(a, ''Serial'')] \<noteq> []" by simp
  have 2: "a = Min (set (map fst [(a, ''Serial'')]))" by simp
  have 3: "''Serial'' = map snd [(a, ''Serial'')] ! first_index a (map fst [(a, ''Serial'')])"
    by simp
  have "pick_best (a, ''Serial'') ?cs
     = (Min (set [a, b, c, d, e]), version_names ! spec_best_index [a, b, c, d, e])"
    using pick_best_inv [OF 1 2 3, of ?cs]
    by (simp add: spec_best_index_def version_names_def del: pick_best.simps first_index.simps)
  moreover have "spec_best_index [a, b, c, d, e] < length [a, b, c, d, e]"
    unfolding spec_best_index_def by (rule first_index_less) (rule Min_in, simp_all)
  ultimately show ?thesis
    by (simp add: best_performance_pick)
qed

theorem best_performance_first_min_witness:
  "best_performance (3::nat) 2 5 2 4 = (''Parallel (Static)'', 2)
   \<and> best_performance (1::nat) 1 1 1 1 = (''Serial'', 1)"
  using best_performance_first_min [of "3::nat" 2 5 2 4]
    best_performance_first_min [of "1::nat" 1 1 1 1]
  by (simp add: spec_best_index_def version_names_def)

section \<open>C10: the scratch grid\<close>

text \<open>
  Claim C10. The compute phase overwrites every cell of the scratch grid, so the next
  generation does not depend on what the scratch grid held; hence for every update
  function, every initial grid and every number of calls, two runs that differ only in
  the contents of the scratch grid end with the same grid.
\<close>

theorem scratch_grid_irrelevant:
  assumes "wf_grid grid" and "wf_grid scratch1" and "wf_grid scratch2"
    and "static_run T ss" and "guided_run T owners gs"
    and "guided_schedule o1 T s1" and "guided_schedule o2 T s2"
  shows "compute_next grid scratch1 = compute_next grid scratch2
    \<and> run_simulation simulate_serial grid scratch1 = run_simulation simulate_serial grid scratch2
    \<and> fst (((\<lambda>(g, n). update_grid_serial g n) ^^ k) (grid, scratch1))
        = fst (((\<lambda>(g, n). update_grid_serial g n) ^^ k) (grid, scratch2))
    \<and> fst (((\<lambda>(g, n). update_grid_parallel s1 s2 g n) ^^ k) (grid, scratch1))
        = fst (((\<lambda>(g, n). update_grid_parallel s1 s2 g n) ^^ k) (grid, scratch2))
    \<and> fst (((\<lambda>(g, n). simulate_serial g n) ^^ k) (grid, scratch1))
        = fst (((\<lambda>(g, n). simulate_serial g n) ^^ k) (grid, scratch2))
    \<and> fst (((\<lambda>(g, n). simulate_parallel_static ss g n) ^^ k) (grid, scratch1))
        = fst (((\<lambda>(g, n). simulate_parallel_static ss g n) ^^ k) (grid, scratch2))
    \<and> fst (((\<lambda>(g, n). simulate_parallel_guided gs g n) ^^ k) (grid, scratch1))
        = fst (((\<lambda>(g, n). simulate_parallel_guided gs g n) ^^ k) (grid, scratch2))
    \<and> fst (((\<lambda>(g, n). simulate_parallel_static_no_critical ss g n) ^^ k) (grid, scratch1))
        = fst (((\<lambda>(g, n). simulate_parallel_static_no_critical ss g n) ^^ k) (grid, scratch2))
    \<and> fst (((\<lambda>(g, n). simulate_parallel_guided_no_critical gs g n) ^^ k) (grid, scratch1))
        = fst (((\<lambda>(g, n). simulate_parallel_guided_no_critical gs g n) ^^ k) (grid, scratch2))"
  by (simp only: compute_next_eq [OF assms(2)] compute_next_eq [OF assms(3)]
      run_simulation_serial [OF assms(1,2)] run_simulation_serial [OF assms(1,3)]
      variants_generations [OF assms(1,2) assms(4-7)]
      variants_generations [OF assms(1,3) assms(4-7)] simp_thms)

theorem scratch_grid_irrelevant_witness:
  "compute_next center_grid corner_grid = compute_next center_grid dead_grid
    \<and> run_simulation simulate_serial center_grid corner_grid
        = run_simulation simulate_serial center_grid dead_grid
    \<and> fst (((\<lambda>(g, n). update_grid_serial g n) ^^ 3) (center_grid, corner_grid))
        = fst (((\<lambda>(g, n). update_grid_serial g n) ^^ 3) (center_grid, dead_grid))
    \<and> fst (((\<lambda>(g, n). update_grid_parallel two_thread_schedule two_thread_schedule g n) ^^ 3)
          (center_grid, corner_grid))
        = fst (((\<lambda>(g, n). update_grid_parallel two_thread_schedule two_thread_schedule g n) ^^ 3)
          (center_grid, dead_grid))
    \<and> fst (((\<lambda>(g, n). simulate_serial g n) ^^ 3) (center_grid, corner_grid))
        = fst (((\<lambda>(g, n). simulate_serial g n) ^^ 3) (center_grid, dead_grid))
    \<and> fst (((\<lambda>(g, n). simulate_parallel_static (\<lambda>iter. two_thread_schedule) g n) ^^ 3)
          (center_grid, corner_grid))
        = fst (((\<lambda>(g, n). simulate_parallel_static (\<lambda>iter. two_thread_schedule) g n) ^^ 3)
          (center_grid, dead_grid))
    \<and> fst (((\<lambda>(g, n). simulate_parallel_guided (\<lambda>iter. two_thread_schedule) g n) ^^ 3)
          (center_grid, corner_grid))
        = fst (((\<lambda>(g, n). simulate_parallel_guided (\<lambda>iter. two_thread_schedule) g n) ^^ 3)
          (center_grid, dead_grid))
    \<and> fst (((\<lambda>(g, n). simulate_parallel_static_no_critical (\<lambda>iter. two_thread_schedule) g n) ^^ 3)
          (center_grid, corner_grid))
        = fst (((\<lambda>(g, n). simulate_parallel_static_no_critical (\<lambda>iter. two_thread_schedule) g n) ^^ 3)
          (center_grid, dead_grid))
    \<and> fst (((\<lambda>(g, n). simulate_parallel_guided_no_critical (\<lambda>iter. two_thread_schedule) g n) ^^ 3)
          (center_grid, corner_grid))
        = fst (((\<lambda>(g, n). simulate_parallel_guided_no_critical (\<lambda>iter. two_thread_schedule) g n) ^^ 3)
          (center_grid, dead_grid))"
  by (rule scratch_grid_irrelevant [OF wf_center_grid wf_corner_grid wf_dead_grid
        static_run_two guided_run_two guided_two guided_two])

end
